theory Spec2Isabelle
  imports Main
begin

section \<open>The editing surface of src/vtextedit.cpp\<close>

subsection \<open>Enumerations and toolkit values\<close>

text \<open>
  \<^verbatim>\<open>enum class BlockState\<close> of the source. A block stores its tag as a plain \<^verbatim>\<open>int\<close>
  (\<^verbatim>\<open>block.userState()\<close>), which the painter compares with the enumerators cast to
  \<^verbatim>\<open>int\<close>; \<open>BlockState_int\<close> is that cast.
\<close>

datatype BlockState = Normal | CodeBlockStart | CodeBlock | CodeBlockEnd | Comment

fun BlockState_int :: "BlockState \<Rightarrow> int" where
  "BlockState_int Normal = 0"
| "BlockState_int CodeBlockStart = 1"
| "BlockState_int CodeBlock = 2"
| "BlockState_int CodeBlockEnd = 3"
| "BlockState_int Comment = 4"

text \<open>
  \<^verbatim>\<open>LineNumberType\<close> and \<^verbatim>\<open>CursorBlock\<close> are declared in the header; the source uses the
  enumerators \<^verbatim>\<open>None\<close>, \<^verbatim>\<open>Absolute\<close>, \<^verbatim>\<open>Relative\<close>, \<^verbatim>\<open>CodeBlock\<close> of the first and only
  \<^verbatim>\<open>None\<close> of the second (every other cursor mode is one value here).
\<close>

datatype LineNumberType = LN_None | LN_Absolute | LN_Relative | LN_CodeBlock

datatype CursorBlock = CB_None | CB_Block

definition VIRTUAL_CURSOR_BLOCK_WIDTH :: int where
  "VIRTUAL_CURSOR_BLOCK_WIDTH = 8"

text \<open>
  \<^verbatim>\<open>QSize\<close> is a pair (width, height); the toolkit's default constructor \<^verbatim>\<open>QSize()\<close>
  gives the size with both components \<open>-1\<close>. A pixmap carries its size and its pixels
  (opaque here).
\<close>

type_synonym QSize = "int \<times> int"

definition QSize_default :: QSize where
  "QSize_default = (-1, -1)"

record QPixmap =
  pixmap_width :: int
  pixmap_height :: int
  pixmap_data :: "nat list"

definition pixmap_size :: "QPixmap \<Rightarrow> QSize" where
  "pixmap_size img = (pixmap_width img, pixmap_height img)"

subsection \<open>The image resource manager\<close>

text \<open>
  The class \<^verbatim>\<open>VImageResourceManager2\<close> is declared in vimageresourcemanager2.h and
  implemented outside vtextedit.cpp; the editing surface only calls it. Its five
  operations follow section 4.1 of the specification.
\<close>

type_synonym VImageResourceManager2 = "string \<rightharpoonup> QPixmap"

text \<open>Modelled from the spec: the manager's \<^verbatim>\<open>addImage(name, image)\<close>, which
  "inserts or replaces the entry for name", silently overwriting.\<close>

definition mgr_addImage :: "string \<Rightarrow> QPixmap \<Rightarrow> VImageResourceManager2 \<Rightarrow> VImageResourceManager2" where
  "mgr_addImage name img m = m(name \<mapsto> img)"

text \<open>Modelled from the spec: the manager's \<^verbatim>\<open>removeImage(name)\<close>, which "removes
  the entry if present; no-op otherwise".\<close>

definition mgr_removeImage :: "string \<Rightarrow> VImageResourceManager2 \<Rightarrow> VImageResourceManager2" where
  "mgr_removeImage name m = m(name := None)"

text \<open>Modelled from the spec: the manager's \<^verbatim>\<open>contains(name)\<close>.\<close>

definition mgr_contains :: "VImageResourceManager2 \<Rightarrow> string \<Rightarrow> bool" where
  "mgr_contains m name = (m name \<noteq> None)"

text \<open>Modelled from the spec: the manager's \<^verbatim>\<open>findImage(name)\<close>, which "returns
  nothing if absent" (a null pointer in the source's use of it).\<close>

definition mgr_findImage :: "VImageResourceManager2 \<Rightarrow> string \<Rightarrow> QPixmap option" where
  "mgr_findImage m name = m name"

text \<open>Modelled from the spec: the manager's \<^verbatim>\<open>clear()\<close>, which "removes all
  entries".\<close>

definition mgr_clear :: "VImageResourceManager2 \<Rightarrow> VImageResourceManager2" where
  "mgr_clear m = Map.empty"

subsection \<open>The state of the editing surface\<close>

text \<open>
  The document layout (\<^verbatim>\<open>VTextDocumentLayout\<close>) is another class implemented outside
  vtextedit.cpp. The surface only sends it settings and relayout requests; the record keeps what
  was sent: the block-image flag, the virtual cursor block width, the line leading
  (as \<^verbatim>\<open>(int)layout->getLineLeading()\<close> reads it) and the number of whole-document
  \<^verbatim>\<open>relayout()\<close> requests received.
\<close>

record VTextDocumentLayout =
  lay_blockImageEnabled :: bool
  lay_virtualCursorBlockWidth :: int
  lay_lineLeading :: int
  lay_relayouts :: nat

text \<open>
  The members of \<^verbatim>\<open>VTextEdit\<close> and the toolkit state its functions read and write:
  the caret width of the underlying \<^verbatim>\<open>QTextEdit\<close> with the log of \<^verbatim>\<open>setCursorWidth\<close>
  calls, the viewport margins (left, top, right, bottom), and the gutter widget
  \<^verbatim>\<open>m_lineNumberArea\<close>: its explicit hidden flag, whether the editor around it is
  shown (\<^verbatim>\<open>isVisible()\<close> needs both), the current value of its \<^verbatim>\<open>calculateWidth()\<close>
  and the number of \<^verbatim>\<open>update()\<close> requests.
\<close>

record VTextEdit =
  m_lineNumberType :: LineNumberType
  m_blockImageEnabled :: bool
  m_cursorBlockMode :: CursorBlock
  m_highlightCursorLineBlock :: bool
  m_imageMgr :: VImageResourceManager2
  docLayout :: VTextDocumentLayout
  cursorWidth :: int
  setCursorWidth_log :: "int list"
  viewportMargins :: "int \<times> int \<times> int \<times> int"
  area_hidden :: bool
  editor_shown :: bool
  area_calculateWidth :: int
  area_updates :: nat

definition margins_left :: "int \<times> int \<times> int \<times> int \<Rightarrow> int" where
  "margins_left m = fst m"

definition area_isVisible :: "VTextEdit \<Rightarrow> bool" where
  "area_isVisible s = (\<not> area_hidden s \<and> editor_shown s)"

definition area_show :: "VTextEdit \<Rightarrow> VTextEdit" where
  "area_show s = s\<lparr>area_hidden := False\<rparr>"

definition area_hide :: "VTextEdit \<Rightarrow> VTextEdit" where
  "area_hide s = s\<lparr>area_hidden := True\<rparr>"

definition setCursorWidth :: "int \<Rightarrow> VTextEdit \<Rightarrow> VTextEdit" where
  "setCursorWidth w s = s\<lparr>cursorWidth := w, setCursorWidth_log := setCursorWidth_log s @ [w]\<rparr>"

text \<open>
  \<^verbatim>\<open>VTextEdit::init\<close>, run by both constructors on the freshly built base widget \<open>s\<close>:
  the configuration members, a new empty image manager, and the layout's block-image
  flag and virtual cursor block width.
\<close>

definition init :: "VTextEdit \<Rightarrow> VTextEdit" where
  "init s = s\<lparr>m_lineNumberType := LN_None,
              m_blockImageEnabled := False,
              m_cursorBlockMode := CB_None,
              m_highlightCursorLineBlock := False,
              m_imageMgr := Map.empty,
              docLayout := (docLayout s)\<lparr>lay_blockImageEnabled := False,
                                         lay_virtualCursorBlockWidth := VIRTUAL_CURSOR_BLOCK_WIDTH\<rparr>\<rparr>"

text \<open>The handler that \<^verbatim>\<open>init\<close> connects to the layout's \<^verbatim>\<open>cursorBlockWidthUpdated\<close>
  signal.\<close>

definition on_cursorBlockWidthUpdated :: "int \<Rightarrow> VTextEdit \<Rightarrow> VTextEdit" where
  "on_cursorBlockWidthUpdated p_width s =
     (if p_width \<noteq> cursorWidth s \<and> p_width > VIRTUAL_CURSOR_BLOCK_WIDTH
      then setCursorWidth p_width s else s)"

subsection \<open>Gutter margin and visibility\<close>

definition updateLineNumberAreaMargin :: "VTextEdit \<Rightarrow> VTextEdit" where
  "updateLineNumberAreaMargin s =
     (let width = (if m_lineNumberType s \<noteq> LN_None then area_calculateWidth s else 0)
      in if width \<noteq> margins_left (viewportMargins s)
         then s\<lparr>viewportMargins := (width, 0, 0, 0)\<rparr> else s)"

definition area_update :: "VTextEdit \<Rightarrow> VTextEdit" where
  "area_update s = s\<lparr>area_updates := Suc (area_updates s)\<rparr>"

definition updateLineNumberArea :: "VTextEdit \<Rightarrow> VTextEdit" where
  "updateLineNumberArea s =
     (if m_lineNumberType s \<noteq> LN_None
      then area_update (if \<not> area_isVisible s
                        then area_show (updateLineNumberAreaMargin s) else s)
      else if area_isVisible s
           then area_hide (updateLineNumberAreaMargin s) else s)"

subsection \<open>Block images\<close>

definition layout_relayout :: "VTextEdit \<Rightarrow> VTextEdit" where
  "layout_relayout s = s\<lparr>docLayout := (docLayout s)\<lparr>lay_relayouts := Suc (lay_relayouts (docLayout s))\<rparr>\<rparr>"

definition clearBlockImages :: "VTextEdit \<Rightarrow> VTextEdit" where
  "clearBlockImages s = layout_relayout (s\<lparr>m_imageMgr := mgr_clear (m_imageMgr s)\<rparr>)"

definition containsImage :: "VTextEdit \<Rightarrow> string \<Rightarrow> bool" where
  "containsImage s p_imageName = mgr_contains (m_imageMgr s) p_imageName"

definition imageSize :: "VTextEdit \<Rightarrow> string \<Rightarrow> QSize" where
  "imageSize s p_imageName =
     (case mgr_findImage (m_imageMgr s) p_imageName of
        Some img \<Rightarrow> pixmap_size img
      | None \<Rightarrow> QSize_default)"

text \<open>
  \<^verbatim>\<open>imageSize\<close> is a \<^verbatim>\<open>const\<close> member function that only reads the manager through
  \<^verbatim>\<open>findImage\<close>; as a call on the surface it returns its value and the state it was
  called in.
\<close>

definition imageSize_call :: "string \<Rightarrow> VTextEdit \<Rightarrow> QSize \<times> VTextEdit" where
  "imageSize_call p_imageName s = (imageSize s p_imageName, s)"

definition addImage :: "string \<Rightarrow> QPixmap \<Rightarrow> VTextEdit \<Rightarrow> VTextEdit" where
  "addImage p_imageName p_image s =
     (if m_blockImageEnabled s
      then s\<lparr>m_imageMgr := mgr_addImage p_imageName p_image (m_imageMgr s)\<rparr>
      else s)"

definition removeImage :: "string \<Rightarrow> VTextEdit \<Rightarrow> VTextEdit" where
  "removeImage p_imageName s = s\<lparr>m_imageMgr := mgr_removeImage p_imageName (m_imageMgr s)\<rparr>"

definition setBlockImageEnabled :: "bool \<Rightarrow> VTextEdit \<Rightarrow> VTextEdit" where
  "setBlockImageEnabled p_enabled s =
     (if m_blockImageEnabled s = p_enabled then s
      else let s1 = s\<lparr>m_blockImageEnabled := p_enabled\<rparr>;
               s2 = s1\<lparr>docLayout := (docLayout s1)\<lparr>lay_blockImageEnabled := m_blockImageEnabled s1\<rparr>\<rparr>
           in if \<not> m_blockImageEnabled s2 then clearBlockImages s2 else s2)"

text \<open>
  The states an editing surface can be in: built by \<^verbatim>\<open>init\<close>, then changed by the four
  functions that touch the image manager or the block-image flag, or by anything else
  (editing, scrolling, the other setters), which leaves those two members alone.
\<close>

inductive reachable :: "VTextEdit \<Rightarrow> bool" where
  r_init: "reachable (init s)"
| r_addImage: "reachable s \<Longrightarrow> reachable (addImage name img s)"
| r_removeImage: "reachable s \<Longrightarrow> reachable (removeImage name s)"
| r_setBlockImageEnabled: "reachable s \<Longrightarrow> reachable (setBlockImageEnabled b s)"
| r_clearBlockImages: "reachable s \<Longrightarrow> reachable (clearBlockImages s)"
| r_other: "reachable s \<Longrightarrow> m_imageMgr s' = m_imageMgr s
              \<Longrightarrow> m_blockImageEnabled s' = m_blockImageEnabled s \<Longrightarrow> reachable s'"

text \<open>A base widget for examples: what \<^verbatim>\<open>QTextEdit\<close> starts from (caret width 1, no
  margins), shown on screen.\<close>

definition base_widget :: VTextEdit where
  "base_widget = \<lparr>m_lineNumberType = LN_None, m_blockImageEnabled = False,
     m_cursorBlockMode = CB_None, m_highlightCursorLineBlock = False,
     m_imageMgr = Map.empty,
     docLayout = \<lparr>lay_blockImageEnabled = False, lay_virtualCursorBlockWidth = 0,
                  lay_lineLeading = 2, lay_relayouts = 0\<rparr>,
     cursorWidth = 1, setCursorWidth_log = [], viewportMargins = (0, 0, 0, 0),
     area_hidden = False, editor_shown = True, area_calculateWidth = 24,
     area_updates = 0\<rparr>"

definition sample_pixmap :: QPixmap where
  "sample_pixmap = \<lparr>pixmap_width = 40, pixmap_height = 30, pixmap_data = [1, 2, 3]\<rparr>"

subsection \<open>Blocks, the paint event and the painter\<close>

text \<open>
  A block of the document as the painter sees it: its state tag (\<^verbatim>\<open>userState()\<close>, an
  \<^verbatim>\<open>int\<close>), its visibility flag, and the bounding rectangle the layout reports for it,
  of which the painter uses \<^verbatim>\<open>(int)rect.y()\<close> and \<^verbatim>\<open>(int)rect.height()\<close>. The document is
  the sequence of its blocks; the block handle is the position in it (the block number),
  valid when it is below the block count. \<^verbatim>\<open>next()\<close> of block \<open>i\<close> is block \<open>i + 1\<close>,
  \<^verbatim>\<open>previous()\<close> is block \<open>i - 1\<close>, and \<^verbatim>\<open>previous()\<close> of block 0 is invalid.

  The painter computes with \<^verbatim>\<open>int\<close>. Block numbers are below the block count, itself an
  \<^verbatim>\<open>int\<close>, so the line numbers (a block number plus 1, a difference of two block
  numbers, a count of blocks) stay in range, and pixel coordinates are far from it; the
  model uses unbounded integers.
\<close>

record text_block =
  userState :: int
  isVisible :: bool
  rect_y :: int
  rect_height :: int

type_synonym document = "text_block list"

text \<open>
  What one call of \<^verbatim>\<open>paintLineNumberArea\<close> reads from outside the surface: the document,
  the block number that \<^verbatim>\<open>layout->findBlockByPosition\<close> returns for the scroll position
  (a function of the layout class, taken as given), the scroll bar value, top and bottom of
  the event rectangle, the caret's block number, whether the gutter widget's font (with
  which a painter starts) is bold, and whether the program is built with \<^verbatim>\<open>Q_ASSERT\<close>
  enabled.
\<close>

record paint_input =
  pi_document :: document
  pi_firstBlock :: int
  pi_scrollValue :: int
  pi_eventTop :: int
  pi_eventBtm :: int
  pi_curBlockNumber :: int
  pi_fontBold :: bool
  pi_debug :: bool

text \<open>
  One \<^verbatim>\<open>painter.drawText\<close> call: the vertical position, the number whose decimal string
  is drawn (\<^verbatim>\<open>QString::number(number)\<close>) and whether the painter's font was bold at the
  call; \<open>dt_block\<close> records the block the loop was at. The other arguments (x = 0, the
  gutter width, the digit height, right alignment) are the same in every call; colours
  and the background fill are left out.
\<close>

record draw_text =
  dt_block :: nat
  dt_y :: int
  dt_number :: int
  dt_bold :: bool

record QPainter =
  font_bold :: bool
  drawn :: "draw_text list"

datatype paint_error = AssertFailed

definition contentOffsetY :: "paint_input \<Rightarrow> int" where
  "contentOffsetY inp = - pi_scrollValue inp"

definition findBlockByNumber :: "document \<Rightarrow> int \<Rightarrow> nat option" where
  "findBlockByNumber doc n = (if 0 \<le> n \<and> n < int (length doc) then Some (nat n) else None)"

definition firstVisibleBlock :: "paint_input \<Rightarrow> nat option" where
  "firstVisibleBlock inp = findBlockByNumber (pi_document inp) (pi_firstBlock inp)"

text \<open>The height read at the end of a loop round for the next block. For a handle
  past the end the loop leaves before using the value; it is 0 here.\<close>

definition blockHeight :: "document \<Rightarrow> nat \<Rightarrow> int" where
  "blockHeight doc block = (if block < length doc then rect_height (doc ! block) else 0)"

definition drawText :: "nat \<Rightarrow> int \<Rightarrow> int \<Rightarrow> QPainter \<Rightarrow> QPainter" where
  "drawText block y number p =
     p\<lparr>drawn := drawn p @ [\<lparr>dt_block = block, dt_y = y, dt_number = number,
                              dt_bold = font_bold p\<rparr>]\<rparr>"

definition setBold :: "bool \<Rightarrow> QPainter \<Rightarrow> QPainter" where
  "setBold b p = p\<lparr>font_bold := b\<rparr>"

subsection \<open>Numbering inside code blocks\<close>

text \<open>
  The inner loop of the \<^verbatim>\<open>CodeBlock\<close> case: starting at \<^verbatim>\<open>block.previous()\<close>, walk
  backwards to the first block tagged \<^verbatim>\<open>CodeBlockStart\<close>. \<open>findStartBlock doc i\<close> scans
  the blocks \<open>i - 1, \<dots>, 0\<close> and returns the start block found, if any.
\<close>

fun findStartBlock :: "document \<Rightarrow> nat \<Rightarrow> nat option" where
  "findStartBlock doc 0 = None"
| "findStartBlock doc (Suc j) =
     (if userState (doc ! j) = BlockState_int CodeBlockStart then Some j
      else findStartBlock doc j)"

text \<open>The \<^verbatim>\<open>switch\<close> on the block state: the new value of \<^verbatim>\<open>number\<close>, or the failed
  \<^verbatim>\<open>Q_ASSERT(number == 0)\<close> of a build that checks assertions.\<close>

definition switchBlockState :: "bool \<Rightarrow> document \<Rightarrow> nat \<Rightarrow> int \<Rightarrow> paint_error + int" where
  "switchBlockState debug doc block number =
     (let blockState = userState (doc ! block) in
      if blockState = BlockState_int CodeBlockStart then
        (if debug \<and> number \<noteq> 0 then Inl AssertFailed else Inr 1)
      else if blockState = BlockState_int CodeBlockEnd then Inr 0
      else if blockState = BlockState_int CodeBlock then
        (if number = 0 then
           (case findStartBlock doc block of
              Some startBlock \<Rightarrow> Inr (int block - int startBlock)
            | None \<Rightarrow> Inr number)
         else Inr number)
      else Inr number)"

text \<open>The second half of the loop body: draw the number of a \<^verbatim>\<open>CodeBlock\<close> block that
  is visible and not above the event rectangle, and count the block.\<close>

definition drawCodeBlockNumber :: "paint_input \<Rightarrow> int \<Rightarrow> nat \<Rightarrow> int \<Rightarrow> int \<Rightarrow> int \<Rightarrow> QPainter \<Rightarrow> QPainter" where
  "drawCodeBlockNumber inp leading block top_y bottom number p =
     (if userState (pi_document inp ! block) = BlockState_int CodeBlock
         \<and> isVisible (pi_document inp ! block) \<and> bottom \<ge> pi_eventTop inp
      then drawText block (top_y + leading) number p else p)"

definition countCodeBlock :: "document \<Rightarrow> nat \<Rightarrow> int \<Rightarrow> int" where
  "countCodeBlock doc block number =
     (if userState (doc ! block) = BlockState_int CodeBlock then number + 1 else number)"

function codeBlockLoop :: "paint_input \<Rightarrow> int \<Rightarrow> nat \<Rightarrow> int \<Rightarrow> int \<Rightarrow> int \<Rightarrow> QPainter
    \<Rightarrow> paint_error + QPainter" where
  "codeBlockLoop inp leading block top_y bottom number p =
     (if block < length (pi_document inp) \<and> top_y \<le> pi_eventBtm inp then
        (case switchBlockState (pi_debug inp) (pi_document inp) block number of
           Inl e \<Rightarrow> Inl e
         | Inr number1 \<Rightarrow>
             codeBlockLoop inp leading (Suc block) bottom
               (bottom + blockHeight (pi_document inp) (Suc block))
               (countCodeBlock (pi_document inp) block number1)
               (drawCodeBlockNumber inp leading block top_y bottom number1 p))
      else Inr p)"
  by pat_completeness auto
termination
  by (relation "measure (\<lambda>(inp, leading, block, top_y, bottom, number, p).
        length (pi_document inp) - block)") auto

subsection \<open>Absolute and relative numbering\<close>

text \<open>The number and the \<^verbatim>\<open>currentLine\<close> flag computed for a painted block from the
  loop's \<^verbatim>\<open>blockNumber\<close> and the caret's block number.\<close>

definition lineNumber :: "LineNumberType \<Rightarrow> int \<Rightarrow> int \<Rightarrow> int \<times> bool" where
  "lineNumber t blockNumber curBlockNumber =
     (if t = LN_Relative then
        (let number = blockNumber - curBlockNumber in
         if number = 0 then (blockNumber + 1, True)
         else if number < 0 then (- number, False)
         else (number, False))
      else if blockNumber = curBlockNumber then (blockNumber + 1, True)
      else (blockNumber + 1, False))"

definition drawLineNumber :: "nat \<Rightarrow> int \<Rightarrow> int \<times> bool \<Rightarrow> QPainter \<Rightarrow> QPainter" where
  "drawLineNumber block y nc p =
     (let number = fst nc; currentLine = snd nc;
          p1 = (if currentLine then setBold True p else p);
          p2 = drawText block y number p1
      in if currentLine then setBold False p2 else p2)"

function numberLoop :: "paint_input \<Rightarrow> LineNumberType \<Rightarrow> int \<Rightarrow> nat \<Rightarrow> int \<Rightarrow> int \<Rightarrow> int
    \<Rightarrow> QPainter \<Rightarrow> QPainter" where
  "numberLoop inp t leading block blockNumber top_y bottom p =
     (if block < length (pi_document inp) \<and> top_y \<le> pi_eventBtm inp then
        numberLoop inp t leading (Suc block) (blockNumber + 1) bottom
          (bottom + blockHeight (pi_document inp) (Suc block))
          (if isVisible (pi_document inp ! block) \<and> bottom \<ge> pi_eventTop inp
           then drawLineNumber block (top_y + leading)
                  (lineNumber t blockNumber (pi_curBlockNumber inp)) p
           else p)
      else p)"
  by pat_completeness auto
termination
  by (relation "measure (\<lambda>(inp, t, leading, block, blockNumber, top_y, bottom, p).
        length (pi_document inp) - block)") auto

declare codeBlockLoop.simps [simp del] numberLoop.simps [simp del]

subsection \<open>Painting the gutter\<close>

text \<open>
  \<^verbatim>\<open>VTextEdit::paintLineNumberArea\<close>: the result is the failed assertion, or the surface
  after the call with the texts drawn on the gutter, in drawing order.
\<close>

definition paintLineNumberArea :: "paint_input \<Rightarrow> VTextEdit \<Rightarrow> paint_error + VTextEdit \<times> draw_text list" where
  "paintLineNumberArea inp s =
     (if m_lineNumberType s = LN_None
      then Inr (area_hide (updateLineNumberAreaMargin s), [])
      else
        let painter = \<lparr>font_bold = pi_fontBold inp, drawn = []\<rparr> in
        case firstVisibleBlock inp of
          None \<Rightarrow> Inr (s, [])
        | Some block \<Rightarrow>
            let blockNumber = int block;
                top_y = contentOffsetY inp + rect_y (pi_document inp ! block);
                bottom = top_y + rect_height (pi_document inp ! block);
                leading = lay_lineLeading (docLayout s)
            in if m_lineNumberType s = LN_CodeBlock then
                 (case codeBlockLoop inp leading block top_y bottom 0 painter of
                    Inl e \<Rightarrow> Inl e
                  | Inr p \<Rightarrow> Inr (s, drawn p))
               else Inr (s, drawn (numberLoop inp (m_lineNumberType s) leading block
                                     blockNumber top_y bottom painter)))"

subsection \<open>Notions used in the statements\<close>

text \<open>The number that the backward scan gives a \<^verbatim>\<open>CodeBlock\<close> block reached with
  \<^verbatim>\<open>number == 0\<close>: the distance to the start block found, or 0 when there is none.\<close>

definition scanNumber :: "document \<Rightarrow> nat \<Rightarrow> int" where
  "scanNumber doc block =
     (case findStartBlock doc block of
        Some startBlock \<Rightarrow> int block - int startBlock
      | None \<Rightarrow> 0)"

text \<open>
  Geometry of a paint loop that is at block \<open>block\<close> with \<^verbatim>\<open>top\<close> equal to \<open>top_y\<close>:
  \<open>topFrom\<close> is the value of \<^verbatim>\<open>top\<close> when the loop is at block \<open>i\<close>, and
  \<open>spanFrom\<close> says that block \<open>i\<close> passes the loop's tests: the loop gets to it (it
  exists and no \<^verbatim>\<open>top\<close> up to it is below the event rectangle), it is visible, and its
  \<^verbatim>\<open>bottom\<close> is not above the event rectangle. \<open>firstTop\<close> is the initial \<^verbatim>\<open>top\<close>.
\<close>

definition topFrom :: "document \<Rightarrow> nat \<Rightarrow> int \<Rightarrow> nat \<Rightarrow> int" where
  "topFrom doc block top_y i = top_y + sum_list (map (\<lambda>j. rect_height (doc ! j)) [block..<i])"

definition spanFrom :: "paint_input \<Rightarrow> nat \<Rightarrow> int \<Rightarrow> nat \<Rightarrow> bool" where
  "spanFrom inp block top_y i \<longleftrightarrow>
     block \<le> i \<and> i < length (pi_document inp)
     \<and> (\<forall>j\<in>{block..i}. topFrom (pi_document inp) block top_y j \<le> pi_eventBtm inp)
     \<and> isVisible (pi_document inp ! i)
     \<and> topFrom (pi_document inp) block top_y (Suc i) \<ge> pi_eventTop inp"

definition firstTop :: "paint_input \<Rightarrow> nat \<Rightarrow> int" where
  "firstTop inp block = contentOffsetY inp + rect_y (pi_document inp ! block)"

definition isCodeBlock :: "paint_input \<Rightarrow> nat \<Rightarrow> bool" where
  "isCodeBlock inp i \<longleftrightarrow> userState (pi_document inp ! i) = BlockState_int CodeBlock"

text \<open>A drawn text is for a visible block of the document and carries the number that
  \<open>lineNumber\<close> gives that block; it is bold where \<open>lineNumber\<close> says so and, when the
  painter started with a font that is not bold, only there.\<close>

definition line_ok :: "paint_input \<Rightarrow> LineNumberType \<Rightarrow> draw_text \<Rightarrow> bool" where
  "line_ok inp t d \<longleftrightarrow>
     dt_block d < length (pi_document inp)
     \<and> isVisible (pi_document inp ! dt_block d)
     \<and> dt_number d = fst (lineNumber t (int (dt_block d)) (pi_curBlockNumber inp))
     \<and> (snd (lineNumber t (int (dt_block d)) (pi_curBlockNumber inp)) \<longrightarrow> dt_bold d)
     \<and> (\<not> pi_fontBold inp \<and> dt_bold d \<longrightarrow>
          snd (lineNumber t (int (dt_block d)) (pi_curBlockNumber inp)))"

text \<open>A drawn text for a block between \<open>lo\<close> and \<open>hi\<close> carries the block's distance
  from \<open>b\<close>.\<close>

definition run_ok :: "nat \<Rightarrow> nat \<Rightarrow> int \<Rightarrow> draw_text \<Rightarrow> bool" where
  "run_ok lo hi b d \<longleftrightarrow>
     (lo \<le> dt_block d \<and> dt_block d \<le> hi \<longrightarrow> dt_number d = int (dt_block d) - b)"

text \<open>Blocks and paint requests for examples.\<close>

definition blk :: "BlockState \<Rightarrow> text_block" where
  "blk st = \<lparr>userState = BlockState_int st, isVisible = True, rect_y = 0, rect_height = 10\<rparr>"

definition paint_all :: "document \<Rightarrow> int \<Rightarrow> int \<Rightarrow> paint_input" where
  "paint_all doc first cur = \<lparr>pi_document = doc, pi_firstBlock = first, pi_scrollValue = 0,
     pi_eventTop = 0, pi_eventBtm = 1000, pi_curBlockNumber = cur,
     pi_fontBold = False, pi_debug = True\<rparr>"

definition widget_in :: "LineNumberType \<Rightarrow> VTextEdit" where
  "widget_in t = base_widget\<lparr>m_lineNumberType := t\<rparr>"

definition four_lines :: document where
  "four_lines = [blk Normal, blk Normal, blk Normal, blk Normal]"

definition fenced_code :: document where
  "fenced_code = [blk Normal, blk CodeBlockStart, blk CodeBlock, blk CodeBlock, blk CodeBlock,
                  blk CodeBlockEnd, blk Normal]"

definition orphan_code :: document where
  "orphan_code = [blk CodeBlock, blk CodeBlock, blk CodeBlockEnd, blk Normal]"

definition reopened_code :: document where
  "reopened_code = [blk CodeBlockStart, blk CodeBlock, blk CodeBlockEnd, blk CodeBlock,
                    blk Normal]"

definition paint_bold :: "document \<Rightarrow> int \<Rightarrow> int \<Rightarrow> paint_input" where
  "paint_bold doc first cur = (paint_all doc first cur)\<lparr>pi_fontBold := True\<rparr>"

definition stale_margin_widget :: VTextEdit where
  "stale_margin_widget = base_widget\<lparr>viewportMargins := (24, 0, 0, 0), area_hidden := True\<rparr>"

section \<open>Properties\<close>

subsection \<open>Image cache\<close>

lemma disabled_cache_empty:
  "reachable s \<Longrightarrow> \<not> m_blockImageEnabled s \<Longrightarrow> m_imageMgr s = Map.empty"
proof (induction rule: reachable.induct)
  case (r_init s)
  show ?case by (simp add: init_def)
next
  case (r_addImage s name img)
  then show ?case by (simp add: addImage_def split: if_splits)
next
  case (r_removeImage s name)
  then show ?case by (simp add: removeImage_def mgr_removeImage_def)
next
  case (r_setBlockImageEnabled s b)
  then show ?case
    by (auto simp: setBlockImageEnabled_def clearBlockImages_def layout_relayout_def
        mgr_clear_def Let_def split: if_splits)
next
  case (r_clearBlockImages s)
  show ?case by (simp add: clearBlockImages_def layout_relayout_def mgr_clear_def)
next
  case (r_other s s')
  then show ?case by simp
qed

text \<open>
  C9. While the block-image flag is false, \<^verbatim>\<open>addImage\<close> changes nothing at all, for every
  name and image; this is the case right after construction. Hence in every reachable
  state a name held by the cache implies that the flag is true, and after
  \<^verbatim>\<open>setBlockImageEnabled(true)\<close> an added image is held.
\<close>

theorem addImage_disabled_unchanged:
  "(\<not> m_blockImageEnabled s \<longrightarrow> addImage name img s = s)
   \<and> \<not> m_blockImageEnabled (init s0)
   \<and> addImage name img (init s0) = init s0
   \<and> (reachable s \<and> containsImage s name \<longrightarrow> m_blockImageEnabled s)
   \<and> containsImage (addImage name img (setBlockImageEnabled True s)) name"
proof -
  have a: "\<not> m_blockImageEnabled s \<longrightarrow> addImage name img s = s"
    by (simp add: addImage_def)
  have b: "\<not> m_blockImageEnabled (init s0)"
    by (simp add: init_def)
  have c: "addImage name img (init s0) = init s0"
    using b by (simp add: addImage_def)
  have d: "reachable s \<and> containsImage s name \<longrightarrow> m_blockImageEnabled s"
  proof (intro impI, elim conjE)
    assume r: "reachable s" and c: "containsImage s name"
    show "m_blockImageEnabled s"
    proof (rule ccontr)
      assume "\<not> m_blockImageEnabled s"
      with r have "m_imageMgr s = Map.empty"
        by (rule disabled_cache_empty)
      with c show False
        by (simp add: containsImage_def mgr_contains_def)
    qed
  qed
  have e: "m_blockImageEnabled (setBlockImageEnabled True s)"
    by (simp add: setBlockImageEnabled_def Let_def)
  have f: "containsImage (addImage name img (setBlockImageEnabled True s)) name"
    using e by (simp add: addImage_def containsImage_def mgr_contains_def mgr_addImage_def)
  from a b c d f show ?thesis by blast
qed

theorem addImage_disabled_unchanged_witness:
  "\<not> m_blockImageEnabled base_widget
   \<and> addImage ''x'' sample_pixmap base_widget = base_widget
   \<and> reachable (addImage ''x'' sample_pixmap (setBlockImageEnabled True (init base_widget)))
   \<and> containsImage (addImage ''x'' sample_pixmap (setBlockImageEnabled True (init base_widget))) ''x''
   \<and> m_blockImageEnabled (addImage ''x'' sample_pixmap (setBlockImageEnabled True (init base_widget)))"
proof -
  let ?s = "addImage ''x'' sample_pixmap (setBlockImageEnabled True (init base_widget))"
  have n: "\<not> m_blockImageEnabled base_widget"
    by (simp add: base_widget_def)
  have r: "reachable ?s"
    by (intro r_addImage r_setBlockImageEnabled r_init)
  have c: "containsImage ?s ''x''"
    using addImage_disabled_unchanged [of "init base_widget" "''x''" sample_pixmap base_widget]
    by simp
  from n r c
    addImage_disabled_unchanged [of base_widget "''x''" sample_pixmap base_widget]
    addImage_disabled_unchanged [of ?s "''x''" sample_pixmap base_widget]
  show ?thesis by blast
qed

text \<open>
  C4, as stated, fails: on a freshly constructed surface the block-image flag is false,
  \<^verbatim>\<open>addImage("x", img)\<close> is skipped and \<^verbatim>\<open>containsImage("x")\<close> stays false.
\<close>

theorem addImage_then_contains_counterexample:
  "\<not> containsImage (addImage ''x'' sample_pixmap (init base_widget)) ''x''"
  by (simp add: addImage_def init_def containsImage_def mgr_contains_def base_widget_def)

text \<open>
  C4, amended. When the block-image flag is true, after \<^verbatim>\<open>addImage("x", img)\<close> the name is
  contained and \<^verbatim>\<open>imageSize("x")\<close> is the size of \<open>img\<close>; after \<^verbatim>\<open>removeImage("x")\<close> the
  name is not contained. Both hold for every name, image and prior cache.
\<close>

theorem addImage_enabled_then_contains:
  "(m_blockImageEnabled s \<longrightarrow>
      containsImage (addImage name img s) name
      \<and> imageSize (addImage name img s) name = pixmap_size img)
   \<and> \<not> containsImage (removeImage name s) name"
  by (simp add: addImage_def containsImage_def imageSize_def removeImage_def
      mgr_contains_def mgr_addImage_def mgr_findImage_def mgr_removeImage_def)

theorem addImage_enabled_then_contains_witness:
  "m_blockImageEnabled (setBlockImageEnabled True (init base_widget))
   \<and> containsImage (addImage ''x'' sample_pixmap (setBlockImageEnabled True (init base_widget))) ''x''
   \<and> imageSize (addImage ''x'' sample_pixmap (setBlockImageEnabled True (init base_widget))) ''x'' = (40, 30)
   \<and> \<not> containsImage (removeImage ''x''
          (addImage ''x'' sample_pixmap (setBlockImageEnabled True (init base_widget)))) ''x''"
proof -
  let ?s = "setBlockImageEnabled True (init base_widget)"
  have e: "m_blockImageEnabled ?s"
    by (simp add: setBlockImageEnabled_def Let_def)
  have p: "pixmap_size sample_pixmap = (40, 30)"
    by (simp add: pixmap_size_def sample_pixmap_def)
  from e p
    addImage_enabled_then_contains [of ?s "''x''" sample_pixmap]
    addImage_enabled_then_contains [of "addImage ''x'' sample_pixmap ?s" "''x''" sample_pixmap]
  show ?thesis by simp
qed

text \<open>
  C10. For a name that the cache does not hold, \<^verbatim>\<open>imageSize\<close> returns the
  default-constructed size and the call leaves the surface, the cache included, as it
  was.
\<close>

theorem imageSize_absent_default:
  "\<not> containsImage s name \<Longrightarrow> imageSize_call name s = (QSize_default, s)"
  by (simp add: imageSize_call_def imageSize_def containsImage_def mgr_contains_def
      mgr_findImage_def)

theorem imageSize_absent_default_witness:
  "\<not> containsImage (init base_widget) ''missing''
   \<and> imageSize_call ''missing'' (init base_widget) = ((-1, -1), init base_widget)"
proof -
  have a: "\<not> containsImage (init base_widget) ''missing''"
    by (simp add: containsImage_def mgr_contains_def init_def)
  from a imageSize_absent_default [OF a] show ?thesis
    by (simp add: QSize_default_def)
qed

text \<open>
  C5. In every reachable state, \<^verbatim>\<open>setBlockImageEnabled(false)\<close> leaves the cache empty,
  whatever it held. When the flag was true, the call is the flag update (on the surface
  and on the layout) followed by \<^verbatim>\<open>clearBlockImages\<close>: the cache is cleared and the
  layout receives exactly one more whole-document relayout request.
\<close>

theorem setBlockImageEnabled_false_clears:
  assumes "reachable s"
  shows "m_imageMgr (setBlockImageEnabled False s) = Map.empty
   \<and> \<not> m_blockImageEnabled (setBlockImageEnabled False s)
   \<and> (m_blockImageEnabled s \<longrightarrow>
        setBlockImageEnabled False s
          = clearBlockImages (s\<lparr>m_blockImageEnabled := False,
                                 docLayout := (docLayout s)\<lparr>lay_blockImageEnabled := False\<rparr>\<rparr>)
        \<and> lay_relayouts (docLayout (setBlockImageEnabled False s))
            = Suc (lay_relayouts (docLayout s))
        \<and> \<not> lay_blockImageEnabled (docLayout (setBlockImageEnabled False s)))"
proof (cases "m_blockImageEnabled s")
  case True
  then show ?thesis
    by (simp add: setBlockImageEnabled_def clearBlockImages_def layout_relayout_def
        mgr_clear_def Let_def)
next
  case False
  with assms have "m_imageMgr s = Map.empty"
    by (rule disabled_cache_empty)
  with False show ?thesis
    by (simp add: setBlockImageEnabled_def)
qed

theorem setBlockImageEnabled_false_clears_witness:
  "reachable (addImage ''x'' sample_pixmap (setBlockImageEnabled True (init base_widget)))
   \<and> m_imageMgr (addImage ''x'' sample_pixmap (setBlockImageEnabled True (init base_widget))) ''x''
       = Some sample_pixmap
   \<and> m_imageMgr (setBlockImageEnabled False
        (addImage ''x'' sample_pixmap (setBlockImageEnabled True (init base_widget)))) = Map.empty
   \<and> lay_relayouts (docLayout (setBlockImageEnabled False
        (addImage ''x'' sample_pixmap (setBlockImageEnabled True (init base_widget))))) = 1"
proof -
  let ?s = "addImage ''x'' sample_pixmap (setBlockImageEnabled True (init base_widget))"
  have r: "reachable ?s"
    by (intro r_addImage r_setBlockImageEnabled r_init)
  have e: "m_blockImageEnabled ?s"
    by (simp add: addImage_def setBlockImageEnabled_def Let_def)
  have m: "m_imageMgr ?s ''x'' = Some sample_pixmap"
    by (simp add: addImage_def setBlockImageEnabled_def Let_def mgr_addImage_def)
  have l: "lay_relayouts (docLayout ?s) = 0"
    by (simp add: addImage_def setBlockImageEnabled_def Let_def init_def base_widget_def)
  from e setBlockImageEnabled_false_clears [OF r]
  have c: "m_imageMgr (setBlockImageEnabled False ?s) = Map.empty"
    and k: "lay_relayouts (docLayout (setBlockImageEnabled False ?s))
              = Suc (lay_relayouts (docLayout ?s))"
    by blast+
  from r m c k l show ?thesis by simp
qed

subsection \<open>Caret width\<close>

text \<open>
  C6. On a caret-width notification carrying \<open>w\<close>, the handler calls
  \<^verbatim>\<open>setCursorWidth(w)\<close> exactly when \<open>w\<close> differs from the current caret width and is
  greater than 8; then the caret width becomes \<open>w\<close>. Otherwise, and in particular for
  every \<open>w \<le> 8\<close>, nothing changes.
\<close>

theorem cursorBlockWidthUpdated_applies:
  "((setCursorWidth_log (on_cursorBlockWidthUpdated w s) = setCursorWidth_log s @ [w])
      \<longleftrightarrow> (w \<noteq> cursorWidth s \<and> 8 < w))
   \<and> (w \<noteq> cursorWidth s \<and> 8 < w \<longrightarrow> cursorWidth (on_cursorBlockWidthUpdated w s) = w)
   \<and> (\<not> (w \<noteq> cursorWidth s \<and> 8 < w) \<longrightarrow> on_cursorBlockWidthUpdated w s = s)
   \<and> (w \<le> 8 \<longrightarrow> on_cursorBlockWidthUpdated w s = s)"
  by (auto simp: on_cursorBlockWidthUpdated_def setCursorWidth_def
      VIRTUAL_CURSOR_BLOCK_WIDTH_def)

theorem cursorBlockWidthUpdated_applies_witness:
  "cursorWidth (on_cursorBlockWidthUpdated 12 base_widget) = 12
   \<and> setCursorWidth_log (on_cursorBlockWidthUpdated 12 base_widget) = [12]
   \<and> on_cursorBlockWidthUpdated 8 base_widget = base_widget
   \<and> on_cursorBlockWidthUpdated 1 base_widget = base_widget"
proof -
  have c: "cursorWidth base_widget = 1" "setCursorWidth_log base_widget = []"
    by (simp_all add: base_widget_def)
  from c
    cursorBlockWidthUpdated_applies [of 12 base_widget]
    cursorBlockWidthUpdated_applies [of 8 base_widget]
    cursorBlockWidthUpdated_applies [of 1 base_widget]
  show ?thesis by simp
qed

subsection \<open>The paint loops\<close>

lemma lineNumber_Absolute:
  "lineNumber LN_Absolute b cur = (b + 1, b = cur)"
  by (simp add: lineNumber_def)

lemma lineNumber_Relative:
  "lineNumber LN_Relative b cur = (if b = cur then (b + 1, True) else (\<bar>b - cur\<bar>, False))"
  by (simp add: lineNumber_def Let_def)

lemma drawLineNumber_drawn:
  "drawn (drawLineNumber block y nc p)
     = drawn p @ [\<lparr>dt_block = block, dt_y = y, dt_number = fst nc,
                    dt_bold = (snd nc \<or> font_bold p)\<rparr>]"
  by (simp add: drawLineNumber_def drawText_def setBold_def Let_def)

lemma drawLineNumber_font:
  "font_bold (drawLineNumber block y nc p) = (\<not> snd nc \<and> font_bold p)"
  by (simp add: drawLineNumber_def drawText_def setBold_def Let_def)

lemma numberLoop_stop:
  "\<not> (block < length (pi_document inp) \<and> top_y \<le> pi_eventBtm inp)
   \<Longrightarrow> numberLoop inp t leading block blockNumber top_y bottom p = p"
  by (subst numberLoop.simps) auto

lemma numberLoop_step:
  "block < length (pi_document inp) \<Longrightarrow> top_y \<le> pi_eventBtm inp
   \<Longrightarrow> numberLoop inp t leading block blockNumber top_y bottom p
       = numberLoop inp t leading (Suc block) (blockNumber + 1) bottom
          (bottom + blockHeight (pi_document inp) (Suc block))
          (if isVisible (pi_document inp ! block) \<and> bottom \<ge> pi_eventTop inp
           then drawLineNumber block (top_y + leading)
                  (lineNumber t blockNumber (pi_curBlockNumber inp)) p
           else p)"
  by (subst numberLoop.simps) simp

lemma numberLoop_sound:
  "blockNumber = int block \<Longrightarrow> font_bold p \<longrightarrow> pi_fontBold inp
   \<Longrightarrow> \<forall>d\<in>set (drawn p). line_ok inp t d
   \<Longrightarrow> \<forall>d\<in>set (drawn (numberLoop inp t leading block blockNumber top_y bottom p)). line_ok inp t d"
proof (induction inp t leading block blockNumber top_y bottom p rule: numberLoop.induct)
  case (1 inp t leading block blockNumber top_y bottom p)
  show ?case
  proof (cases "block < length (pi_document inp) \<and> top_y \<le> pi_eventBtm inp")
    case False
    with "1.prems"(3) show ?thesis
      by (simp add: numberLoop_stop)
  next
    case True
    let ?p = "if isVisible (pi_document inp ! block) \<and> bottom \<ge> pi_eventTop inp
           then drawLineNumber block (top_y + leading)
                  (lineNumber t blockNumber (pi_curBlockNumber inp)) p
           else p"
    have f: "font_bold ?p \<longrightarrow> pi_fontBold inp"
      using "1.prems"(2) by (simp add: drawLineNumber_font)
    have q: "\<forall>d\<in>set (drawn ?p). line_ok inp t d"
      using "1.prems" True by (auto simp: drawLineNumber_drawn line_ok_def)
    have n: "blockNumber + 1 = int (Suc block)"
      using "1.prems"(1) by simp
    from "1.IH" [OF True n f q] True show ?thesis
      by (simp add: numberLoop_step)
  qed
qed


lemma codeBlockLoop_stop:
  "\<not> (block < length (pi_document inp) \<and> top_y \<le> pi_eventBtm inp)
   \<Longrightarrow> codeBlockLoop inp leading block top_y bottom number p = Inr p"
  by (subst codeBlockLoop.simps) auto

lemma codeBlockLoop_step:
  "block < length (pi_document inp) \<Longrightarrow> top_y \<le> pi_eventBtm inp
   \<Longrightarrow> codeBlockLoop inp leading block top_y bottom number p
       = (case switchBlockState (pi_debug inp) (pi_document inp) block number of
           Inl e \<Rightarrow> Inl e
         | Inr number1 \<Rightarrow>
             codeBlockLoop inp leading (Suc block) bottom
               (bottom + blockHeight (pi_document inp) (Suc block))
               (countCodeBlock (pi_document inp) block number1)
               (drawCodeBlockNumber inp leading block top_y bottom number1 p))"
  by (subst codeBlockLoop.simps) simp

lemma findStartBlock_Some:
  "findStartBlock doc i = Some st \<Longrightarrow>
     st < i \<and> userState (doc ! st) = BlockState_int CodeBlockStart
     \<and> (\<forall>j. st < j \<and> j < i \<longrightarrow> userState (doc ! j) \<noteq> BlockState_int CodeBlockStart)"
proof (induction i)
  case 0
  then show ?case by simp
next
  case (Suc i)
  show ?case
  proof (cases "userState (doc ! i) = BlockState_int CodeBlockStart")
    case True
    with Suc.prems show ?thesis by auto
  next
    case False
    with Suc.prems have "findStartBlock doc i = Some st" by simp
    from Suc.IH [OF this] False show ?thesis
      by (auto simp: less_Suc_eq)
  qed
qed

lemma findStartBlock_None:
  "findStartBlock doc i = None \<longleftrightarrow> (\<forall>j<i. userState (doc ! j) \<noteq> BlockState_int CodeBlockStart)"
  by (induction i) (auto simp: less_Suc_eq)

lemma findStartBlock_nearest:
  "st < i \<Longrightarrow> userState (doc ! st) = BlockState_int CodeBlockStart
   \<Longrightarrow> \<forall>j. st < j \<and> j < i \<longrightarrow> userState (doc ! j) \<noteq> BlockState_int CodeBlockStart
   \<Longrightarrow> findStartBlock doc i = Some st"
proof (induction i)
  case 0
  then show ?case by simp
next
  case (Suc i)
  show ?case
  proof (cases "st = i")
    case True
    with Suc.prems show ?thesis by simp
  next
    case False
    with Suc.prems have a: "st < i" by simp
    from Suc.prems a have b: "userState (doc ! i) \<noteq> BlockState_int CodeBlockStart" by simp
    from Suc.prems have c: "\<forall>j. st < j \<and> j < i \<longrightarrow> userState (doc ! j) \<noteq> BlockState_int CodeBlockStart"
      by simp
    from Suc.IH [OF a Suc.prems(2) c] b show ?thesis by simp
  qed
qed

lemma switch_CodeBlock:
  "userState (doc ! block) = BlockState_int CodeBlock
   \<Longrightarrow> switchBlockState debug doc block number
        = Inr (if number = 0 then scanNumber doc block else number)"
  by (simp add: switchBlockState_def scanNumber_def split: option.splits)

lemma switch_CodeBlockStart:
  "userState (doc ! block) = BlockState_int CodeBlockStart
   \<Longrightarrow> switchBlockState debug doc block number
        = (if debug \<and> number \<noteq> 0 then Inl AssertFailed else Inr 1)"
  by (simp add: switchBlockState_def)

lemma switch_release:
  "\<exists>number1. switchBlockState False doc block number = Inr number1"
  by (simp add: switchBlockState_def Let_def split: option.splits)

lemma drawCodeBlockNumber_drawn:
  "drawn (drawCodeBlockNumber inp leading block top_y bottom number p)
     = drawn p @
       (if userState (pi_document inp ! block) = BlockState_int CodeBlock
           \<and> isVisible (pi_document inp ! block) \<and> bottom \<ge> pi_eventTop inp
        then [\<lparr>dt_block = block, dt_y = top_y + leading, dt_number = number,
                dt_bold = font_bold p\<rparr>] else [])"
  by (simp add: drawCodeBlockNumber_def drawText_def)

lemma codeBlockLoop_run:
  "\<forall>j. lo \<le> j \<and> j \<le> hi \<longrightarrow> userState (pi_document inp ! j) = BlockState_int CodeBlock
   \<Longrightarrow> b \<le> int lo
   \<Longrightarrow> block < lo \<longrightarrow> 0 < lo \<and> userState (pi_document inp ! (lo - 1)) = BlockState_int CodeBlockStart
         \<and> b = int lo - 1
   \<Longrightarrow> lo \<le> block \<and> block \<le> hi \<longrightarrow>
         (if number = 0 then scanNumber (pi_document inp) block = int block - b
          else number = int block - b)
   \<Longrightarrow> \<forall>d\<in>set (drawn p). run_ok lo hi b d
   \<Longrightarrow> codeBlockLoop inp leading block top_y bottom number p = Inr p'
   \<Longrightarrow> \<forall>d\<in>set (drawn p'). run_ok lo hi b d"
proof (induction inp leading block top_y bottom number p rule: codeBlockLoop.induct)
  case (1 inp leading block top_y bottom number p)
  let ?doc = "pi_document inp"
  show ?case
  proof (cases "block < length ?doc \<and> top_y \<le> pi_eventBtm inp")
    case False
    with "1.prems"(6) have "p' = p" by (simp add: codeBlockLoop_stop)
    with "1.prems"(5) show ?thesis by simp
  next
    case True
    then have v: "block < length ?doc" and t: "top_y \<le> pi_eventBtm inp" by simp_all
    show ?thesis
    proof (cases "switchBlockState (pi_debug inp) ?doc block number")
      case (Inl e)
      with "1.prems"(6) v t show ?thesis by (simp add: codeBlockLoop_step)
    next
      case (Inr number1)
      let ?n2 = "countCodeBlock ?doc block number1"
      let ?p2 = "drawCodeBlockNumber inp leading block top_y bottom number1 p"
      from "1.prems"(6) v t Inr
      have res: "codeBlockLoop inp leading (Suc block) bottom
               (bottom + blockHeight ?doc (Suc block)) ?n2 ?p2 = Inr p'"
        by (simp add: codeBlockLoop_step)
      have entry: "Suc block < lo \<longrightarrow> 0 < lo
          \<and> userState (?doc ! (lo - 1)) = BlockState_int CodeBlockStart \<and> b = int lo - 1"
        using "1.prems"(3) by simp
      have n1: "lo \<le> block \<and> block \<le> hi \<longrightarrow> number1 = int block - b"
      proof
        assume r: "lo \<le> block \<and> block \<le> hi"
        with "1.prems"(1) have "userState (?doc ! block) = BlockState_int CodeBlock" by simp
        from switch_CodeBlock [OF this, of "pi_debug inp" number] Inr
        have "number1 = (if number = 0 then scanNumber ?doc block else number)" by simp
        with "1.prems"(4) r show "number1 = int block - b" by (simp split: if_splits)
      qed
      have inv: "lo \<le> Suc block \<and> Suc block \<le> hi \<longrightarrow>
         (if ?n2 = 0 then scanNumber ?doc (Suc block) = int (Suc block) - b
          else ?n2 = int (Suc block) - b)"
      proof
        assume r: "lo \<le> Suc block \<and> Suc block \<le> hi"
        show "if ?n2 = 0 then scanNumber ?doc (Suc block) = int (Suc block) - b
          else ?n2 = int (Suc block) - b"
        proof (cases "lo \<le> block")
          case True
          with r n1 have a: "number1 = int block - b" by simp
          from True r "1.prems"(1) have "userState (?doc ! block) = BlockState_int CodeBlock"
            by simp
          then have "?n2 = number1 + 1" by (simp add: countCodeBlock_def)
          with a True "1.prems"(2) show ?thesis by simp
        next
          case False
          with r have l: "lo = Suc block" by simp
          with "1.prems"(3) have s: "userState (?doc ! block) = BlockState_int CodeBlockStart"
            and b: "b = int block" by simp_all
          from switch_CodeBlockStart [OF s, of "pi_debug inp" number] Inr
          have "number1 = 1" by (simp split: if_splits)
          with s have "?n2 = 1" by (simp add: countCodeBlock_def)
          with b show ?thesis by simp
        qed
      qed
      have dr: "\<forall>d\<in>set (drawn ?p2). run_ok lo hi b d"
        using "1.prems"(5) n1 by (auto simp: drawCodeBlockNumber_drawn run_ok_def)
      from "1.IH" [OF True Inr "1.prems"(1) "1.prems"(2) entry inv dr res]
      show ?thesis .
    qed
  qed
qed


lemma topFrom_self: "topFrom doc block top_y block = top_y"
  by (simp add: topFrom_def)

lemma topFrom_Suc:
  "block < j \<Longrightarrow> topFrom doc block top_y j = topFrom doc (Suc block) (top_y + rect_height (doc ! block)) j"
  by (simp add: topFrom_def upt_conv_Cons)

lemma spanFrom_unfold:
  assumes "block < length (pi_document inp)"
  shows "spanFrom inp block top_y i \<longleftrightarrow>
     top_y \<le> pi_eventBtm inp
     \<and> ((i = block \<and> isVisible (pi_document inp ! block)
          \<and> top_y + rect_height (pi_document inp ! block) \<ge> pi_eventTop inp)
        \<or> spanFrom inp (Suc block) (top_y + rect_height (pi_document inp ! block)) i)"
proof (cases "i = block")
  case True
  then show ?thesis
    using assms by (auto simp: spanFrom_def topFrom_self topFrom_Suc)
next
  case False
  let ?doc = "pi_document inp"
  let ?b = "top_y + rect_height (?doc ! block)"
  have eq: "\<And>j. block < j \<Longrightarrow> topFrom ?doc block top_y j = topFrom ?doc (Suc block) ?b j"
    by (rule topFrom_Suc)
  have q: "block < i \<Longrightarrow>
        (\<forall>j\<in>{block..i}. topFrom ?doc block top_y j \<le> pi_eventBtm inp)
        \<longleftrightarrow> top_y \<le> pi_eventBtm inp
            \<and> (\<forall>j\<in>{Suc block..i}. topFrom ?doc (Suc block) ?b j \<le> pi_eventBtm inp)"
  proof -
    assume l: "block < i"
    then have "{block..i} = insert block {Suc block..i}" by auto
    then show ?thesis
      by (simp add: topFrom_self eq)
  qed
  show ?thesis
  proof (cases "block < i")
    case True
    with q [OF True] False show ?thesis
      by (auto simp: spanFrom_def eq)
  next
    case False
    with \<open>i \<noteq> block\<close> show ?thesis
      by (auto simp: spanFrom_def)
  qed
qed

lemma spanFrom_stop:
  assumes "\<not> (block < length (pi_document inp) \<and> top_y \<le> pi_eventBtm inp)"
  shows "\<not> spanFrom inp block top_y i"
proof
  assume s: "spanFrom inp block top_y i"
  then have "block \<in> {block..i}" by (simp add: spanFrom_def)
  with s have "topFrom (pi_document inp) block top_y block \<le> pi_eventBtm inp"
    unfolding spanFrom_def by blast
  with s assms show False by (simp add: spanFrom_def topFrom_self)
qed

lemma codeBlockLoop_blocks:
  "bottom = top_y + blockHeight (pi_document inp) block
   \<Longrightarrow> codeBlockLoop inp leading block top_y bottom number p = Inr p'
   \<Longrightarrow> dt_block ` set (drawn p')
       = dt_block ` set (drawn p) \<union> {i. spanFrom inp block top_y i \<and> isCodeBlock inp i}"
proof (induction inp leading block top_y bottom number p rule: codeBlockLoop.induct)
  case (1 inp leading block top_y bottom number p)
  let ?doc = "pi_document inp"
  show ?case
  proof (cases "block < length ?doc \<and> top_y \<le> pi_eventBtm inp")
    case False
    with "1.prems"(2) have "p' = p" by (simp add: codeBlockLoop_stop)
    with spanFrom_stop [OF False] show ?thesis by simp
  next
    case True
    then have v: "block < length ?doc" and t: "top_y \<le> pi_eventBtm inp" by simp_all
    from v "1.prems"(1) have bot: "bottom = top_y + rect_height (?doc ! block)"
      by (simp add: blockHeight_def)
    show ?thesis
    proof (cases "switchBlockState (pi_debug inp) ?doc block number")
      case (Inl e)
      with "1.prems"(2) v t show ?thesis by (simp add: codeBlockLoop_step)
    next
      case (Inr number1)
      let ?n2 = "countCodeBlock ?doc block number1"
      let ?p2 = "drawCodeBlockNumber inp leading block top_y bottom number1 p"
      from "1.prems"(2) v t Inr
      have res: "codeBlockLoop inp leading (Suc block) bottom
               (bottom + blockHeight ?doc (Suc block)) ?n2 ?p2 = Inr p'"
        by (simp add: codeBlockLoop_step)
      from "1.IH" [OF True Inr refl res]
      have ih: "dt_block ` set (drawn p')
          = dt_block ` set (drawn ?p2) \<union> {i. spanFrom inp (Suc block) bottom i \<and> isCodeBlock inp i}" .
      have un: "\<And>i. spanFrom inp block top_y i \<longleftrightarrow>
          (i = block \<and> isVisible (?doc ! block) \<and> bottom \<ge> pi_eventTop inp)
          \<or> spanFrom inp (Suc block) bottom i"
        using spanFrom_unfold [OF v, of top_y] t bot by simp
      show ?thesis
        unfolding ih
        by (auto simp: drawCodeBlockNumber_drawn un isCodeBlock_def)
    qed
  qed
qed

lemma numberLoop_blocks:
  "bottom = top_y + blockHeight (pi_document inp) block
   \<Longrightarrow> dt_block ` set (drawn (numberLoop inp t leading block blockNumber top_y bottom p))
       = dt_block ` set (drawn p) \<union> {i. spanFrom inp block top_y i}"
proof (induction inp t leading block blockNumber top_y bottom p rule: numberLoop.induct)
  case (1 inp t leading block blockNumber top_y bottom p)
  let ?doc = "pi_document inp"
  show ?case
  proof (cases "block < length ?doc \<and> top_y \<le> pi_eventBtm inp")
    case False
    with spanFrom_stop [OF False] show ?thesis by (simp add: numberLoop_stop)
  next
    case True
    then have v: "block < length ?doc" and t: "top_y \<le> pi_eventBtm inp" by simp_all
    from v "1.prems" have bot: "bottom = top_y + rect_height (?doc ! block)"
      by (simp add: blockHeight_def)
    let ?p2 = "if isVisible (?doc ! block) \<and> bottom \<ge> pi_eventTop inp
           then drawLineNumber block (top_y + leading)
                  (lineNumber t blockNumber (pi_curBlockNumber inp)) p
           else p"
    have un: "\<And>i. spanFrom inp block top_y i \<longleftrightarrow>
          (i = block \<and> isVisible (?doc ! block) \<and> bottom \<ge> pi_eventTop inp)
          \<or> spanFrom inp (Suc block) bottom i"
      using spanFrom_unfold [OF v, of top_y] t bot by simp
    from "1.IH" [OF True refl]
    have ih: "dt_block ` set (drawn (numberLoop inp t leading (Suc block) (blockNumber + 1)
                 bottom (bottom + blockHeight ?doc (Suc block)) ?p2))
        = dt_block ` set (drawn ?p2) \<union> {i. spanFrom inp (Suc block) bottom i}" .
    show ?thesis
      unfolding numberLoop_step [OF v t] ih
      by (auto simp: drawLineNumber_drawn un)
  qed
qed

lemma codeBlockLoop_sorted:
  "sorted_wrt (<) (map dt_block (drawn p)) \<Longrightarrow> \<forall>d\<in>set (drawn p). dt_block d < block
   \<Longrightarrow> codeBlockLoop inp leading block top_y bottom number p = Inr p'
   \<Longrightarrow> sorted_wrt (<) (map dt_block (drawn p'))"
proof (induction inp leading block top_y bottom number p rule: codeBlockLoop.induct)
  case (1 inp leading block top_y bottom number p)
  let ?doc = "pi_document inp"
  show ?case
  proof (cases "block < length ?doc \<and> top_y \<le> pi_eventBtm inp")
    case False
    with "1.prems"(3) have "p' = p" by (simp add: codeBlockLoop_stop)
    with "1.prems"(1) show ?thesis by simp
  next
    case True
    then have v: "block < length ?doc" and t: "top_y \<le> pi_eventBtm inp" by simp_all
    show ?thesis
    proof (cases "switchBlockState (pi_debug inp) ?doc block number")
      case (Inl e)
      with "1.prems"(3) v t show ?thesis by (simp add: codeBlockLoop_step)
    next
      case (Inr number1)
      let ?n2 = "countCodeBlock ?doc block number1"
      let ?p2 = "drawCodeBlockNumber inp leading block top_y bottom number1 p"
      from "1.prems"(3) v t Inr
      have res: "codeBlockLoop inp leading (Suc block) bottom
               (bottom + blockHeight ?doc (Suc block)) ?n2 ?p2 = Inr p'"
        by (simp add: codeBlockLoop_step)
      have a: "sorted_wrt (<) (map dt_block (drawn ?p2))"
        using "1.prems"(1,2) by (simp add: drawCodeBlockNumber_drawn sorted_wrt_append)
      have b: "\<forall>d\<in>set (drawn ?p2). dt_block d < Suc block"
        using "1.prems"(2) by (auto simp: drawCodeBlockNumber_drawn less_Suc_eq)
      from "1.IH" [OF True Inr a b res] show ?thesis .
    qed
  qed
qed

lemma codeBlockLoop_release:
  "\<not> pi_debug inp \<Longrightarrow> \<exists>p'. codeBlockLoop inp leading block top_y bottom number p = Inr p'"
proof (induction inp leading block top_y bottom number p rule: codeBlockLoop.induct)
  case (1 inp leading block top_y bottom number p)
  let ?doc = "pi_document inp"
  show ?case
  proof (cases "block < length ?doc \<and> top_y \<le> pi_eventBtm inp")
    case False
    then show ?thesis by (simp add: codeBlockLoop_stop)
  next
    case True
    then have v: "block < length ?doc" and t: "top_y \<le> pi_eventBtm inp" by simp_all
    from switch_release [of ?doc block number] "1.prems"
    obtain number1 where sw: "switchBlockState (pi_debug inp) ?doc block number = Inr number1"
      by auto
    from "1.IH" [OF True sw "1.prems"] sw v t show ?thesis
      by (simp add: codeBlockLoop_step)
  qed
qed

lemma firstVisibleBlock_valid:
  "firstVisibleBlock inp = Some f \<Longrightarrow> f < length (pi_document inp)"
  by (auto simp: firstVisibleBlock_def findBlockByNumber_def split: if_splits)

lemma paint_CodeBlock:
  "m_lineNumberType s = LN_CodeBlock \<Longrightarrow> firstVisibleBlock inp = Some f
   \<Longrightarrow> paintLineNumberArea inp s
       = (case codeBlockLoop inp (lay_lineLeading (docLayout s)) f (firstTop inp f)
                 (firstTop inp f + blockHeight (pi_document inp) f) 0
                 \<lparr>font_bold = pi_fontBold inp, drawn = []\<rparr> of
            Inl e \<Rightarrow> Inl e
          | Inr p \<Rightarrow> Inr (s, drawn p))"
  by (frule firstVisibleBlock_valid)
     (simp add: paintLineNumberArea_def firstTop_def blockHeight_def Let_def)

lemma paint_numbers:
  "m_lineNumberType s = LN_Absolute \<or> m_lineNumberType s = LN_Relative
   \<Longrightarrow> firstVisibleBlock inp = Some f
   \<Longrightarrow> paintLineNumberArea inp s
       = Inr (s, drawn (numberLoop inp (m_lineNumberType s) (lay_lineLeading (docLayout s)) f
                 (int f) (firstTop inp f) (firstTop inp f + blockHeight (pi_document inp) f)
                 \<lparr>font_bold = pi_fontBold inp, drawn = []\<rparr>))"
  by (frule firstVisibleBlock_valid)
     (auto simp: paintLineNumberArea_def firstTop_def blockHeight_def Let_def)

lemma paint_no_block:
  "m_lineNumberType s \<noteq> LN_None \<Longrightarrow> firstVisibleBlock inp = None
   \<Longrightarrow> paintLineNumberArea inp s = Inr (s, [])"
  by (simp add: paintLineNumberArea_def)

lemma paint_numbers_ok:
  assumes t: "m_lineNumberType s = LN_Absolute \<or> m_lineNumberType s = LN_Relative"
  shows "\<exists>ds. paintLineNumberArea inp s = Inr (s, ds)
     \<and> (\<forall>d\<in>set ds. line_ok inp (m_lineNumberType s) d)
     \<and> (\<forall>f. firstVisibleBlock inp = Some f \<longrightarrow>
           dt_block ` set ds = {i. spanFrom inp f (firstTop inp f) i})"
proof (cases "firstVisibleBlock inp")
  case None
  with t have "paintLineNumberArea inp s = Inr (s, [])"
    by (auto simp: paint_no_block)
  with None show ?thesis by simp
next
  case (Some f)
  let ?p0 = "\<lparr>font_bold = pi_fontBold inp, drawn = []\<rparr>"
  let ?p = "numberLoop inp (m_lineNumberType s) (lay_lineLeading (docLayout s)) f
                 (int f) (firstTop inp f) (firstTop inp f + blockHeight (pi_document inp) f) ?p0"
  have r: "paintLineNumberArea inp s = Inr (s, drawn ?p)"
    using t Some by (rule paint_numbers)
  have a: "\<forall>d\<in>set (drawn ?p). line_ok inp (m_lineNumberType s) d"
    by (rule numberLoop_sound) simp_all
  have b: "dt_block ` set (drawn ?p) = {i. spanFrom inp f (firstTop inp f) i}"
    by (subst numberLoop_blocks [OF refl]) simp
  from r a b Some show ?thesis by simp
qed

lemma BlockState_int_inject [simp]:
  "BlockState_int a = BlockState_int b \<longleftrightarrow> a = b"
  by (cases a; cases b) simp_all

lemma scanNumber_in_run:
  assumes st: "userState (doc ! st) = BlockState_int CodeBlockStart"
    and run: "\<forall>j. st < j \<and> j \<le> hi \<longrightarrow> userState (doc ! j) = BlockState_int CodeBlock"
    and i: "st < i" "i \<le> hi"
  shows "scanNumber doc i = int i - int st"
proof -
  have "\<forall>j. st < j \<and> j < i \<longrightarrow> userState (doc ! j) \<noteq> BlockState_int CodeBlockStart"
    using run i by simp
  with i(1) st have "findStartBlock doc i = Some st"
    by (rule findStartBlock_nearest)
  then show ?thesis by (simp add: scanNumber_def)
qed

lemma paint_CodeBlock_Inr:
  assumes mode: "m_lineNumberType s = LN_CodeBlock"
    and first: "firstVisibleBlock inp = Some f"
    and res: "paintLineNumberArea inp s = Inr (s', ds)"
  shows "s' = s \<and> (\<exists>p'. codeBlockLoop inp (lay_lineLeading (docLayout s)) f (firstTop inp f)
                 (firstTop inp f + blockHeight (pi_document inp) f) 0
                 \<lparr>font_bold = pi_fontBold inp, drawn = []\<rparr> = Inr p' \<and> ds = drawn p')"
  using res unfolding paint_CodeBlock [OF mode first]
  by (auto split: sum.splits)

lemma paint_CodeBlock_release:
  assumes mode: "m_lineNumberType s = LN_CodeBlock"
    and rel: "\<not> pi_debug inp"
  shows "\<exists>ds. paintLineNumberArea inp s = Inr (s, ds)"
proof (cases "firstVisibleBlock inp")
  case None
  with mode show ?thesis by (simp add: paint_no_block)
next
  case (Some f)
  from codeBlockLoop_release [OF rel]
  obtain p' where "codeBlockLoop inp (lay_lineLeading (docLayout s)) f (firstTop inp f)
                 (firstTop inp f + blockHeight (pi_document inp) f) 0
                 \<lparr>font_bold = pi_fontBold inp, drawn = []\<rparr> = Inr p'"
    by blast
  then show ?thesis
    by (simp add: paint_CodeBlock [OF mode Some])
qed

lemma findStartBlock_numeral:
  "findStartBlock doc (numeral n)
     = (if userState (doc ! pred_numeral n) = BlockState_int CodeBlockStart
        then Some (pred_numeral n) else findStartBlock doc (pred_numeral n))"
  by (simp add: numeral_eq_Suc)

lemmas paint_eval = findStartBlock_numeral paintLineNumberArea_def paint_all_def blk_def base_widget_def widget_in_def
      firstVisibleBlock_def findBlockByNumber_def contentOffsetY_def
      codeBlockLoop.simps numberLoop.simps switchBlockState_def drawCodeBlockNumber_def
      countCodeBlock_def
      blockHeight_def drawLineNumber_def lineNumber_def drawText_def setBold_def Let_def

lemma eval_fenced_3:
  "paintLineNumberArea (paint_all fenced_code 3 0) (widget_in LN_CodeBlock)
     = Inr (widget_in LN_CodeBlock,
        [\<lparr>dt_block = 3, dt_y = 2, dt_number = 2, dt_bold = False\<rparr>,
         \<lparr>dt_block = 4, dt_y = 12, dt_number = 3, dt_bold = False\<rparr>])"
  by (simp add: fenced_code_def paint_eval)

lemma eval_fenced_0:
  "paintLineNumberArea (paint_all fenced_code 0 0) (widget_in LN_CodeBlock)
     = Inr (widget_in LN_CodeBlock,
        [\<lparr>dt_block = 2, dt_y = 22, dt_number = 1, dt_bold = False\<rparr>,
         \<lparr>dt_block = 3, dt_y = 32, dt_number = 2, dt_bold = False\<rparr>,
         \<lparr>dt_block = 4, dt_y = 42, dt_number = 3, dt_bold = False\<rparr>])"
  by (simp add: fenced_code_def paint_eval)

lemma eval_orphan_0:
  "paintLineNumberArea (paint_all orphan_code 0 0) (widget_in LN_CodeBlock)
     = Inr (widget_in LN_CodeBlock,
        [\<lparr>dt_block = 0, dt_y = 2, dt_number = 0, dt_bold = False\<rparr>,
         \<lparr>dt_block = 1, dt_y = 12, dt_number = 1, dt_bold = False\<rparr>])"
  by (simp add: orphan_code_def paint_eval)

lemma eval_absolute:
  "paintLineNumberArea (paint_all four_lines 1 2) (widget_in LN_Absolute)
     = Inr (widget_in LN_Absolute,
        [\<lparr>dt_block = 1, dt_y = 2, dt_number = 2, dt_bold = False\<rparr>,
         \<lparr>dt_block = 2, dt_y = 12, dt_number = 3, dt_bold = True\<rparr>,
         \<lparr>dt_block = 3, dt_y = 22, dt_number = 4, dt_bold = False\<rparr>])"
  by (simp add: four_lines_def paint_eval)

lemma eval_relative:
  "paintLineNumberArea (paint_all four_lines 0 2) (widget_in LN_Relative)
     = Inr (widget_in LN_Relative,
        [\<lparr>dt_block = 0, dt_y = 2, dt_number = 2, dt_bold = False\<rparr>,
         \<lparr>dt_block = 1, dt_y = 12, dt_number = 1, dt_bold = False\<rparr>,
         \<lparr>dt_block = 2, dt_y = 22, dt_number = 3, dt_bold = True\<rparr>,
         \<lparr>dt_block = 3, dt_y = 32, dt_number = 1, dt_bold = False\<rparr>])"
  by (simp add: four_lines_def paint_eval)

lemma fenced_states:
  "userState (fenced_code ! 1) = BlockState_int CodeBlockStart"
  "userState (fenced_code ! 2) = BlockState_int CodeBlock"
  "userState (fenced_code ! 3) = BlockState_int CodeBlock"
  "userState (fenced_code ! 4) = BlockState_int CodeBlock"
  "userState (fenced_code ! 5) = BlockState_int CodeBlockEnd"
  "length fenced_code = 7"
  by (simp_all add: fenced_code_def blk_def)

subsection \<open>Code-block numbering\<close>

text \<open>
  C1, as stated, fails: a block tagged \<^verbatim>\<open>CodeBlock\<close> gets a number wherever it stands,
  also outside a code region. In the document
  [\<^verbatim>\<open>CodeBlockStart\<close>, \<^verbatim>\<open>CodeBlock\<close>, \<^verbatim>\<open>CodeBlockEnd\<close>, \<^verbatim>\<open>CodeBlock\<close>, \<^verbatim>\<open>Normal\<close>], painted from
  its visible start block, the region's one line gets 1, and block 3, which follows the
  end of the region, is painted with 3 (its distance from the start block that the
  backward scan finds).
\<close>

theorem codeBlock_outside_region_counterexample:
  "paintLineNumberArea (paint_all reopened_code 0 0) (widget_in LN_CodeBlock)
     = Inr (widget_in LN_CodeBlock,
        [\<lparr>dt_block = 1, dt_y = 12, dt_number = 1, dt_bold = False\<rparr>,
         \<lparr>dt_block = 3, dt_y = 32, dt_number = 3, dt_bold = False\<rparr>])"
  by (simp add: reopened_code_def paint_eval)

text \<open>
  C1, amended. In \<^verbatim>\<open>CodeBlock\<close> numbering mode, let the document hold a code region:
  block \<open>st\<close> tagged \<^verbatim>\<open>CodeBlockStart\<close>, the \<open>k\<close> blocks after it tagged \<^verbatim>\<open>CodeBlock\<close>,
  then a block tagged \<^verbatim>\<open>CodeBlockEnd\<close>; painting starts at or above \<open>st\<close>. A build without
  assertions always completes the paint (one with assertions may stop at a
  \<^verbatim>\<open>CodeBlockStart\<close> reached with a running number other than 0). Whenever the paint
  completes: the text for the \<open>j\<close>-th \<^verbatim>\<open>CodeBlock\<close> block of the region carries \<open>j\<close>, and
  every block of the region that passes the loop's tests (reached, visible, not above
  the event rectangle) gets its text; texts are drawn in increasing block order, at
  most one per block; the blocks that get a text are exactly the blocks tagged
  \<^verbatim>\<open>CodeBlock\<close> that pass the loop's tests, so nothing is drawn for the start block, the
  end block or a block with any other tag, while a block tagged \<^verbatim>\<open>CodeBlock\<close> outside
  the region is numbered too. At the end block the switch sets the running number to 0.
\<close>

theorem codeBlock_region_numbers:
  assumes mode: "m_lineNumberType s = LN_CodeBlock"
    and first: "firstVisibleBlock inp = Some f" and fs: "f \<le> st"
    and st: "userState (pi_document inp ! st) = BlockState_int CodeBlockStart"
    and run: "\<forall>j. st < j \<and> j \<le> st + k \<longrightarrow> userState (pi_document inp ! j) = BlockState_int CodeBlock"
    and en: "userState (pi_document inp ! (st + k + 1)) = BlockState_int CodeBlockEnd"
    and len: "st + k + 1 < length (pi_document inp)"
  shows "(\<not> pi_debug inp \<longrightarrow> (\<exists>ds. paintLineNumberArea inp s = Inr (s, ds)))
    \<and> (\<forall>s' ds. paintLineNumberArea inp s = Inr (s', ds) \<longrightarrow>
          s' = s
          \<and> (\<forall>d\<in>set ds. isCodeBlock inp (dt_block d)
                \<and> dt_block d \<noteq> st \<and> dt_block d \<noteq> st + k + 1
                \<and> (st < dt_block d \<and> dt_block d \<le> st + k \<longrightarrow>
                     dt_number d = int (dt_block d) - int st))
          \<and> sorted_wrt (<) (map dt_block ds)
          \<and> dt_block ` set ds = {i. spanFrom inp f (firstTop inp f) i \<and> isCodeBlock inp i}
          \<and> (\<forall>j. 1 \<le> j \<and> j \<le> k \<and> spanFrom inp f (firstTop inp f) (st + j) \<longrightarrow>
                (\<exists>d\<in>set ds. dt_block d = st + j \<and> dt_number d = int j)))
    \<and> switchBlockState (pi_debug inp) (pi_document inp) (st + k + 1) n = Inr 0"
proof (intro conjI allI impI)
  assume "\<not> pi_debug inp"
  with mode show "\<exists>ds. paintLineNumberArea inp s = Inr (s, ds)"
    by (rule paint_CodeBlock_release)
next
  show "switchBlockState (pi_debug inp) (pi_document inp) (st + k + 1) n = Inr 0"
    using en by (simp add: switchBlockState_def)
next
  fix s' ds
  assume res: "paintLineNumberArea inp s = Inr (s', ds)"
  let ?doc = "pi_document inp"
  let ?p0 = "\<lparr>font_bold = pi_fontBold inp, drawn = []\<rparr>"
  from paint_CodeBlock_Inr [OF mode first res]
  obtain p' where s': "s' = s"
    and loop: "codeBlockLoop inp (lay_lineLeading (docLayout s)) f (firstTop inp f)
                 (firstTop inp f + blockHeight ?doc f) 0 ?p0 = Inr p'"
    and ds: "ds = drawn p'"
    by blast
  from s' show "s' = s" .
  have blocks: "dt_block ` set ds = {i. spanFrom inp f (firstTop inp f) i \<and> isCodeBlock inp i}"
    using codeBlockLoop_blocks [OF refl loop] ds by simp
  from blocks
  show "dt_block ` set ds = {i. spanFrom inp f (firstTop inp f) i \<and> isCodeBlock inp i}" .
  have nums: "\<forall>d\<in>set ds. run_ok (Suc st) (st + k) (int st) d"
    unfolding ds
  proof (rule codeBlockLoop_run [OF _ _ _ _ _ loop])
    show "\<forall>j. Suc st \<le> j \<and> j \<le> st + k \<longrightarrow> userState (?doc ! j) = BlockState_int CodeBlock"
      using run by (simp add: Suc_le_eq)
    show "int st \<le> int (Suc st)" by simp
    show "f < Suc st \<longrightarrow> 0 < Suc st
        \<and> userState (?doc ! (Suc st - 1)) = BlockState_int CodeBlockStart
        \<and> int st = int (Suc st) - 1"
      using st by simp
    show "Suc st \<le> f \<and> f \<le> st + k \<longrightarrow>
        (if (0::int) = 0 then scanNumber ?doc f = int f - int st else 0 = int f - int st)"
      using fs by simp
    show "\<forall>d\<in>set (drawn ?p0). run_ok (Suc st) (st + k) (int st) d" by simp
  qed
  show "sorted_wrt (<) (map dt_block ds)"
    unfolding ds by (rule codeBlockLoop_sorted [OF _ _ loop]) simp_all
  show "\<forall>d\<in>set ds. isCodeBlock inp (dt_block d)
                \<and> dt_block d \<noteq> st \<and> dt_block d \<noteq> st + k + 1
                \<and> (st < dt_block d \<and> dt_block d \<le> st + k \<longrightarrow>
                     dt_number d = int (dt_block d) - int st)"
  proof
    fix d assume d: "d \<in> set ds"
    then have "dt_block d \<in> dt_block ` set ds" by simp
    with blocks have c: "isCodeBlock inp (dt_block d)" by simp
    from c st have a: "dt_block d \<noteq> st" by (auto simp: isCodeBlock_def)
    from c en have b: "dt_block d \<noteq> st + k + 1" by (auto simp: isCodeBlock_def)
    from nums d have "run_ok (Suc st) (st + k) (int st) d" by simp
    with a b c show "isCodeBlock inp (dt_block d)
                \<and> dt_block d \<noteq> st \<and> dt_block d \<noteq> st + k + 1
                \<and> (st < dt_block d \<and> dt_block d \<le> st + k \<longrightarrow>
                     dt_number d = int (dt_block d) - int st)"
      by (simp add: run_ok_def Suc_le_eq)
  qed
  fix j
  assume j: "1 \<le> j \<and> j \<le> k \<and> spanFrom inp f (firstTop inp f) (st + j)"
  with run have "isCodeBlock inp (st + j)" by (simp add: isCodeBlock_def)
  with j blocks have "st + j \<in> dt_block ` set ds" by simp
  then obtain d where d: "d \<in> set ds" and e: "dt_block d = st + j" by auto
  from nums d have "run_ok (Suc st) (st + k) (int st) d" by simp
  with e j have "dt_number d = int j" by (simp add: run_ok_def)
  with d e show "\<exists>d\<in>set ds. dt_block d = st + j \<and> dt_number d = int j" by blast
qed

theorem codeBlock_region_numbers_witness:
  "m_lineNumberType (widget_in LN_CodeBlock) = LN_CodeBlock
   \<and> firstVisibleBlock (paint_all fenced_code 0 0) = Some 0
   \<and> paintLineNumberArea (paint_all fenced_code 0 0) (widget_in LN_CodeBlock)
       = Inr (widget_in LN_CodeBlock,
          [\<lparr>dt_block = 2, dt_y = 22, dt_number = 1, dt_bold = False\<rparr>,
           \<lparr>dt_block = 3, dt_y = 32, dt_number = 2, dt_bold = False\<rparr>,
           \<lparr>dt_block = 4, dt_y = 42, dt_number = 3, dt_bold = False\<rparr>])
   \<and> sorted_wrt (<) [2, 3, 4 :: nat]"
proof -
  let ?inp = "paint_all fenced_code 0 0"
  let ?s = "widget_in LN_CodeBlock"
  have doc: "pi_document ?inp = fenced_code"
    by (simp add: paint_all_def)
  have mode: "m_lineNumberType ?s = LN_CodeBlock"
    by (simp add: widget_in_def)
  have first: "firstVisibleBlock ?inp = Some 0"
    by (simp add: firstVisibleBlock_def findBlockByNumber_def paint_all_def fenced_code_def)
  have fs: "(0::nat) \<le> 1" by simp
  have st: "userState (pi_document ?inp ! 1) = BlockState_int CodeBlockStart"
    unfolding doc by (rule fenced_states)
  have run: "\<forall>j. 1 < j \<and> j \<le> 1 + 3 \<longrightarrow>
      userState (pi_document ?inp ! j) = BlockState_int CodeBlock"
  proof (intro allI impI)
    fix j :: nat
    assume "1 < j \<and> j \<le> 1 + 3"
    then have "j = 2 \<or> j = 3 \<or> j = 4" by arith
    then show "userState (pi_document ?inp ! j) = BlockState_int CodeBlock"
      unfolding doc using fenced_states by auto
  qed
  have en: "userState (pi_document ?inp ! (1 + 3 + 1)) = BlockState_int CodeBlockEnd"
    unfolding doc using fenced_states(5) by simp
  have len: "1 + 3 + 1 < length (pi_document ?inp)"
    unfolding doc by (simp add: fenced_states)
  note inst = codeBlock_region_numbers [OF mode first fs st run en len, of 0]
  from inst eval_fenced_0
  have "sorted_wrt (<) (map dt_block
          [\<lparr>dt_block = 2, dt_y = 22, dt_number = 1, dt_bold = False\<rparr>,
           \<lparr>dt_block = 3, dt_y = 32, dt_number = 2, dt_bold = False\<rparr>,
           \<lparr>dt_block = 4, dt_y = 42, dt_number = 3, dt_bold = False\<rparr>])"
    by blast
  with mode first eval_fenced_0 show ?thesis by simp
qed

text \<open>
  C2, as stated, fails: where painting begins at a \<^verbatim>\<open>CodeBlock\<close> block with no
  \<^verbatim>\<open>CodeBlockStart\<close> before it, the number 0 is painted for that block (and 1 for the
  next \<^verbatim>\<open>CodeBlock\<close> block); the claim says that nothing is painted for it.
\<close>

theorem codeBlock_no_start_paints_zero_counterexample:
  "paintLineNumberArea (paint_all orphan_code 0 0) (widget_in LN_CodeBlock)
     = Inr (widget_in LN_CodeBlock,
        [\<lparr>dt_block = 0, dt_y = 2, dt_number = 0, dt_bold = False\<rparr>,
         \<lparr>dt_block = 1, dt_y = 12, dt_number = 1, dt_bold = False\<rparr>])"
  by (rule eval_orphan_0)

text \<open>
  C2, amended. In \<^verbatim>\<open>CodeBlock\<close> numbering mode, let painting begin at block \<open>f\<close> and let
  the blocks \<open>f \<dots> hi\<close> be tagged \<^verbatim>\<open>CodeBlock\<close>. A build without assertions always
  completes the paint. Whenever the paint completes, every block among \<open>f \<dots> hi\<close> that
  passes the loop's tests gets a text, and: if the backward scan from \<open>f\<close> finds a
  start block \<open>st\<close> (the nearest block tagged \<^verbatim>\<open>CodeBlockStart\<close> before \<open>f\<close>), the texts for
  the blocks \<open>f \<dots> hi\<close> carry their distance from \<open>st\<close>; if there is no
  \<^verbatim>\<open>CodeBlockStart\<close> before \<open>f\<close>, they carry their distance from \<open>f\<close>, so block \<open>f\<close>
  itself is painted with the number 0.
\<close>

theorem codeBlock_first_block_scan:
  assumes mode: "m_lineNumberType s = LN_CodeBlock"
    and first: "firstVisibleBlock inp = Some f"
    and cb: "\<forall>j. f \<le> j \<and> j \<le> hi \<longrightarrow> userState (pi_document inp ! j) = BlockState_int CodeBlock"
    and fh: "f \<le> hi"
  shows "(\<not> pi_debug inp \<longrightarrow> (\<exists>ds. paintLineNumberArea inp s = Inr (s, ds)))
    \<and> (\<forall>s' ds. paintLineNumberArea inp s = Inr (s', ds) \<longrightarrow>
          (\<forall>i. f \<le> i \<and> i \<le> hi \<and> spanFrom inp f (firstTop inp f) i \<longrightarrow>
                (\<exists>d\<in>set ds. dt_block d = i))
          \<and> (\<forall>st. findStartBlock (pi_document inp) f = Some st \<longrightarrow>
                st < f \<and> userState (pi_document inp ! st) = BlockState_int CodeBlockStart
                \<and> (\<forall>j. st < j \<and> j < f \<longrightarrow>
                      userState (pi_document inp ! j) \<noteq> BlockState_int CodeBlockStart)
                \<and> (\<forall>d\<in>set ds. f \<le> dt_block d \<and> dt_block d \<le> hi \<longrightarrow>
                      dt_number d = int (dt_block d) - int st))
          \<and> (findStartBlock (pi_document inp) f = None \<longrightarrow>
                (\<forall>j<f. userState (pi_document inp ! j) \<noteq> BlockState_int CodeBlockStart)
                \<and> (\<forall>d\<in>set ds. f \<le> dt_block d \<and> dt_block d \<le> hi \<longrightarrow>
                      dt_number d = int (dt_block d) - int f)
                \<and> (spanFrom inp f (firstTop inp f) f \<longrightarrow>
                      (\<exists>d\<in>set ds. dt_block d = f \<and> dt_number d = 0))))"
proof (intro conjI allI impI)
  assume "\<not> pi_debug inp"
  with mode show "\<exists>ds. paintLineNumberArea inp s = Inr (s, ds)"
    by (rule paint_CodeBlock_release)
next
  fix s' ds
  assume res: "paintLineNumberArea inp s = Inr (s', ds)"
  let ?doc = "pi_document inp"
  let ?p0 = "\<lparr>font_bold = pi_fontBold inp, drawn = []\<rparr>"
  from paint_CodeBlock_Inr [OF mode first res]
  obtain p' where loop: "codeBlockLoop inp (lay_lineLeading (docLayout s)) f (firstTop inp f)
                 (firstTop inp f + blockHeight ?doc f) 0 ?p0 = Inr p'"
    and ds: "ds = drawn p'"
    by blast
  have blocks: "dt_block ` set ds = {i. spanFrom inp f (firstTop inp f) i \<and> isCodeBlock inp i}"
    using codeBlockLoop_blocks [OF refl loop] ds by simp
  have nums: "\<forall>d\<in>set ds. run_ok f hi b d"
    if b: "b \<le> int f" "scanNumber ?doc f = int f - b" for b
    unfolding ds
  proof (rule codeBlockLoop_run [OF _ _ _ _ _ loop])
    show "\<forall>j. f \<le> j \<and> j \<le> hi \<longrightarrow> userState (?doc ! j) = BlockState_int CodeBlock"
      by (rule cb)
    show "b \<le> int f" by (rule b)
    show "f < f \<longrightarrow> 0 < f \<and> userState (?doc ! (f - 1)) = BlockState_int CodeBlockStart
        \<and> b = int f - 1"
      by simp
    show "f \<le> f \<and> f \<le> hi \<longrightarrow>
        (if (0::int) = 0 then scanNumber ?doc f = int f - b else 0 = int f - b)"
      using b by simp
    show "\<forall>d\<in>set (drawn ?p0). run_ok f hi b d" by simp
  qed
  {
    fix i
    assume i: "f \<le> i \<and> i \<le> hi \<and> spanFrom inp f (firstTop inp f) i"
    with cb have "isCodeBlock inp i" by (simp add: isCodeBlock_def)
    with i blocks have "i \<in> dt_block ` set ds" by simp
    then show "\<exists>d\<in>set ds. dt_block d = i" by auto
  }
  {
    fix st
    assume f: "findStartBlock ?doc f = Some st"
    from findStartBlock_Some [OF f]
    have a: "st < f" and b: "userState (?doc ! st) = BlockState_int CodeBlockStart"
      and c: "\<forall>j. st < j \<and> j < f \<longrightarrow> userState (?doc ! j) \<noteq> BlockState_int CodeBlockStart"
      by simp_all
    from a show "st < f" .
    from b show "userState (?doc ! st) = BlockState_int CodeBlockStart" .
    {
      fix j assume "st < j \<and> j < f"
      with c show "userState (?doc ! j) \<noteq> BlockState_int CodeBlockStart" by simp
    }
    have "\<forall>d\<in>set ds. run_ok f hi (int st) d"
      using a f by (intro nums) (simp_all add: scanNumber_def)
    then show "\<forall>d\<in>set ds. f \<le> dt_block d \<and> dt_block d \<le> hi \<longrightarrow>
                      dt_number d = int (dt_block d) - int st"
      by (simp add: run_ok_def)
  }
  assume n: "findStartBlock ?doc f = None"
  {
    fix j assume "j < f"
    with n show "userState (?doc ! j) \<noteq> BlockState_int CodeBlockStart"
      by (simp add: findStartBlock_None)
  }
  have r: "\<forall>d\<in>set ds. run_ok f hi (int f) d"
    using n by (intro nums) (simp_all add: scanNumber_def)
  then show "\<forall>d\<in>set ds. f \<le> dt_block d \<and> dt_block d \<le> hi \<longrightarrow>
                      dt_number d = int (dt_block d) - int f"
    by (simp add: run_ok_def)
  assume sp: "spanFrom inp f (firstTop inp f) f"
  from cb fh have "isCodeBlock inp f" by (simp add: isCodeBlock_def)
  with sp blocks have "f \<in> dt_block ` set ds" by simp
  then obtain d where d: "d \<in> set ds" and e: "dt_block d = f" by auto
  with r fh have "dt_number d = 0" by (simp add: run_ok_def)
  with d e show "\<exists>d\<in>set ds. dt_block d = f \<and> dt_number d = 0" by blast
qed

theorem codeBlock_first_block_scan_witness:
  "m_lineNumberType (widget_in LN_CodeBlock) = LN_CodeBlock
   \<and> firstVisibleBlock (paint_all fenced_code 3 0) = Some 3
   \<and> findStartBlock fenced_code 3 = Some 1
   \<and> paintLineNumberArea (paint_all fenced_code 3 0) (widget_in LN_CodeBlock)
       = Inr (widget_in LN_CodeBlock,
          [\<lparr>dt_block = 3, dt_y = 2, dt_number = 2, dt_bold = False\<rparr>,
           \<lparr>dt_block = 4, dt_y = 12, dt_number = 3, dt_bold = False\<rparr>])
   \<and> firstVisibleBlock (paint_all orphan_code 0 0) = Some 0
   \<and> findStartBlock orphan_code 0 = None
   \<and> paintLineNumberArea (paint_all orphan_code 0 0) (widget_in LN_CodeBlock)
       = Inr (widget_in LN_CodeBlock,
          [\<lparr>dt_block = 0, dt_y = 2, dt_number = 0, dt_bold = False\<rparr>,
           \<lparr>dt_block = 1, dt_y = 12, dt_number = 1, dt_bold = False\<rparr>])"
proof -
  let ?inp = "paint_all fenced_code 3 0"
  let ?inp2 = "paint_all orphan_code 0 0"
  let ?s = "widget_in LN_CodeBlock"
  have doc: "pi_document ?inp = fenced_code"
    by (simp add: paint_all_def)
  have mode: "m_lineNumberType ?s = LN_CodeBlock"
    by (simp add: widget_in_def)
  have first: "firstVisibleBlock ?inp = Some 3"
    by (simp add: firstVisibleBlock_def findBlockByNumber_def paint_all_def fenced_code_def)
  have cb: "\<forall>j. 3 \<le> j \<and> j \<le> 4 \<longrightarrow>
      userState (pi_document ?inp ! j) = BlockState_int CodeBlock"
  proof (intro allI impI)
    fix j :: nat
    assume "3 \<le> j \<and> j \<le> 4"
    then have "j = 3 \<or> j = 4" by arith
    then show "userState (pi_document ?inp ! j) = BlockState_int CodeBlock"
      unfolding doc using fenced_states by auto
  qed
  have fh: "(3::nat) \<le> 4" by simp
  have scan: "findStartBlock fenced_code 3 = Some 1"
    by (simp add: findStartBlock_numeral fenced_code_def blk_def)
  note inst = codeBlock_first_block_scan [OF mode first cb fh]
  from inst eval_fenced_3 scan
  have near: "(1::nat) < 3" unfolding doc by blast
  have doc2: "pi_document ?inp2 = orphan_code"
    by (simp add: paint_all_def)
  have first2: "firstVisibleBlock ?inp2 = Some 0"
    by (simp add: firstVisibleBlock_def findBlockByNumber_def paint_all_def orphan_code_def)
  have cb2: "\<forall>j. 0 \<le> j \<and> j \<le> 1 \<longrightarrow>
      userState (pi_document ?inp2 ! j) = BlockState_int CodeBlock"
  proof (intro allI impI)
    fix j :: nat
    assume "0 \<le> j \<and> j \<le> 1"
    then have "j = 0 \<or> j = 1" by arith
    then show "userState (pi_document ?inp2 ! j) = BlockState_int CodeBlock"
      unfolding doc2 by (auto simp: orphan_code_def blk_def)
  qed
  have fh2: "(0::nat) \<le> 1" by simp
  have scan2: "findStartBlock orphan_code 0 = None" by simp
  note inst2 = codeBlock_first_block_scan [OF mode first2 cb2 fh2]
  from inst2 eval_orphan_0 scan2
  have zero: "\<forall>d\<in>set [\<lparr>dt_block = 0, dt_y = 2, dt_number = 0, dt_bold = False\<rparr>,
                       \<lparr>dt_block = 1, dt_y = 12, dt_number = 1, dt_bold = False\<rparr>].
      0 \<le> dt_block d \<and> dt_block d \<le> 1 \<longrightarrow> dt_number d = int (dt_block d) - int 0"
    unfolding doc2 by blast
  from near zero mode first scan eval_fenced_3 first2 scan2 eval_orphan_0
  show ?thesis by simp
qed

subsection \<open>Absolute and relative numbering\<close>

lemma paint_bold_fields:
  "paint_bold doc first cur = \<lparr>pi_document = doc, pi_firstBlock = first, pi_scrollValue = 0,
     pi_eventTop = 0, pi_eventBtm = 1000, pi_curBlockNumber = cur,
     pi_fontBold = True, pi_debug = True\<rparr>"
  by (simp add: paint_bold_def paint_all_def)

lemma eval_absolute_bold:
  "paintLineNumberArea (paint_bold four_lines 0 2) (widget_in LN_Absolute)
     = Inr (widget_in LN_Absolute,
        [\<lparr>dt_block = 0, dt_y = 2, dt_number = 1, dt_bold = True\<rparr>,
         \<lparr>dt_block = 1, dt_y = 12, dt_number = 2, dt_bold = True\<rparr>,
         \<lparr>dt_block = 2, dt_y = 22, dt_number = 3, dt_bold = True\<rparr>,
         \<lparr>dt_block = 3, dt_y = 32, dt_number = 4, dt_bold = False\<rparr>])"
  by (simp add: four_lines_def paint_bold_fields paint_eval)

lemma eval_relative_bold:
  "paintLineNumberArea (paint_bold four_lines 0 2) (widget_in LN_Relative)
     = Inr (widget_in LN_Relative,
        [\<lparr>dt_block = 0, dt_y = 2, dt_number = 2, dt_bold = True\<rparr>,
         \<lparr>dt_block = 1, dt_y = 12, dt_number = 1, dt_bold = True\<rparr>,
         \<lparr>dt_block = 2, dt_y = 22, dt_number = 3, dt_bold = True\<rparr>,
         \<lparr>dt_block = 3, dt_y = 32, dt_number = 1, dt_bold = False\<rparr>])"
  by (simp add: four_lines_def paint_bold_fields paint_eval)

text \<open>
  C7, as stated, fails: the painter starts with the gutter widget's font, and the loop
  switches bold on for the caret's block and off after it, but never off before the
  first text. With a bold gutter font and the caret on block 2, the numbers of blocks 0
  and 1 are drawn bold as well.
\<close>

theorem absolute_bold_font_counterexample:
  "paintLineNumberArea (paint_bold four_lines 0 2) (widget_in LN_Absolute)
     = Inr (widget_in LN_Absolute,
        [\<lparr>dt_block = 0, dt_y = 2, dt_number = 1, dt_bold = True\<rparr>,
         \<lparr>dt_block = 1, dt_y = 12, dt_number = 2, dt_bold = True\<rparr>,
         \<lparr>dt_block = 2, dt_y = 22, dt_number = 3, dt_bold = True\<rparr>,
         \<lparr>dt_block = 3, dt_y = 32, dt_number = 4, dt_bold = False\<rparr>])"
  by (rule eval_absolute_bold)

text \<open>
  C7, amended. In \<^verbatim>\<open>Absolute\<close> numbering mode the paint completes, and every text drawn
  is for a visible block of the document and carries that block's number plus 1. The
  text for the caret's block is bold; when the gutter widget's font is not bold, a text
  is bold exactly when its block is the caret's block. The blocks that get a text are
  exactly those that pass the loop's tests.
\<close>

theorem absolute_numbers:
  assumes "m_lineNumberType s = LN_Absolute"
  shows "\<exists>ds. paintLineNumberArea inp s = Inr (s, ds)
     \<and> (\<forall>d\<in>set ds. dt_block d < length (pi_document inp)
           \<and> isVisible (pi_document inp ! dt_block d)
           \<and> dt_number d = int (dt_block d) + 1
           \<and> (int (dt_block d) = pi_curBlockNumber inp \<longrightarrow> dt_bold d)
           \<and> (\<not> pi_fontBold inp \<longrightarrow>
                (dt_bold d \<longleftrightarrow> int (dt_block d) = pi_curBlockNumber inp)))
     \<and> (\<forall>f. firstVisibleBlock inp = Some f \<longrightarrow>
           dt_block ` set ds = {i. spanFrom inp f (firstTop inp f) i})"
proof -
  from assms paint_numbers_ok [of s inp]
  obtain ds where r: "paintLineNumberArea inp s = Inr (s, ds)"
    and a: "\<forall>d\<in>set ds. line_ok inp LN_Absolute d"
    and b: "\<forall>f. firstVisibleBlock inp = Some f \<longrightarrow>
           dt_block ` set ds = {i. spanFrom inp f (firstTop inp f) i}"
    by auto
  from a have "\<forall>d\<in>set ds. dt_block d < length (pi_document inp)
           \<and> isVisible (pi_document inp ! dt_block d)
           \<and> dt_number d = int (dt_block d) + 1
           \<and> (int (dt_block d) = pi_curBlockNumber inp \<longrightarrow> dt_bold d)
           \<and> (\<not> pi_fontBold inp \<longrightarrow>
                (dt_bold d \<longleftrightarrow> int (dt_block d) = pi_curBlockNumber inp))"
    by (auto simp: line_ok_def lineNumber_Absolute)
  with r b show ?thesis by blast
qed

theorem absolute_numbers_witness:
  "m_lineNumberType (widget_in LN_Absolute) = LN_Absolute
   \<and> \<not> pi_fontBold (paint_all four_lines 1 2)
   \<and> paintLineNumberArea (paint_all four_lines 1 2) (widget_in LN_Absolute)
       = Inr (widget_in LN_Absolute,
          [\<lparr>dt_block = 1, dt_y = 2, dt_number = 2, dt_bold = False\<rparr>,
           \<lparr>dt_block = 2, dt_y = 12, dt_number = 3, dt_bold = True\<rparr>,
           \<lparr>dt_block = 3, dt_y = 22, dt_number = 4, dt_bold = False\<rparr>])"
proof -
  have mode: "m_lineNumberType (widget_in LN_Absolute) = LN_Absolute"
    by (simp add: widget_in_def)
  have nb: "\<not> pi_fontBold (paint_all four_lines 1 2)"
    by (simp add: paint_all_def)
  from absolute_numbers [OF mode]
  obtain ds where "paintLineNumberArea (paint_all four_lines 1 2) (widget_in LN_Absolute)
      = Inr (widget_in LN_Absolute, ds)"
    by blast
  with mode nb eval_absolute show ?thesis by simp
qed

text \<open>
  C3, as stated, fails for the same reason: with a bold gutter font and the caret on
  block 2, the relative numbers of blocks 0 and 1 are drawn bold.
\<close>

theorem relative_bold_font_counterexample:
  "paintLineNumberArea (paint_bold four_lines 0 2) (widget_in LN_Relative)
     = Inr (widget_in LN_Relative,
        [\<lparr>dt_block = 0, dt_y = 2, dt_number = 2, dt_bold = True\<rparr>,
         \<lparr>dt_block = 1, dt_y = 12, dt_number = 1, dt_bold = True\<rparr>,
         \<lparr>dt_block = 2, dt_y = 22, dt_number = 3, dt_bold = True\<rparr>,
         \<lparr>dt_block = 3, dt_y = 32, dt_number = 1, dt_bold = False\<rparr>])"
  by (rule eval_relative_bold)

text \<open>
  C3, amended. In \<^verbatim>\<open>Relative\<close> numbering mode the paint completes, and every text drawn
  is for a visible block of the document: for the block whose number is the caret's
  block number it carries that number plus 1 and is bold; for every other block it
  carries the absolute difference of the block's number and the caret's block number
  and, when the gutter widget's font is not bold, is not bold. The blocks that get a
  text are exactly those that pass the loop's tests.
\<close>

theorem relative_numbers:
  assumes "m_lineNumberType s = LN_Relative"
  shows "\<exists>ds. paintLineNumberArea inp s = Inr (s, ds)
     \<and> (\<forall>d\<in>set ds. dt_block d < length (pi_document inp)
           \<and> isVisible (pi_document inp ! dt_block d)
           \<and> (if int (dt_block d) = pi_curBlockNumber inp
               then dt_number d = int (dt_block d) + 1 \<and> dt_bold d
               else dt_number d = \<bar>int (dt_block d) - pi_curBlockNumber inp\<bar>
                    \<and> (\<not> pi_fontBold inp \<longrightarrow> \<not> dt_bold d)))
     \<and> (\<forall>f. firstVisibleBlock inp = Some f \<longrightarrow>
           dt_block ` set ds = {i. spanFrom inp f (firstTop inp f) i})"
proof -
  from assms paint_numbers_ok [of s inp]
  obtain ds where r: "paintLineNumberArea inp s = Inr (s, ds)"
    and a: "\<forall>d\<in>set ds. line_ok inp LN_Relative d"
    and b: "\<forall>f. firstVisibleBlock inp = Some f \<longrightarrow>
           dt_block ` set ds = {i. spanFrom inp f (firstTop inp f) i}"
    by auto
  have "\<forall>d\<in>set ds. dt_block d < length (pi_document inp)
           \<and> isVisible (pi_document inp ! dt_block d)
           \<and> (if int (dt_block d) = pi_curBlockNumber inp
               then dt_number d = int (dt_block d) + 1 \<and> dt_bold d
               else dt_number d = \<bar>int (dt_block d) - pi_curBlockNumber inp\<bar>
                    \<and> (\<not> pi_fontBold inp \<longrightarrow> \<not> dt_bold d))"
  proof
    fix d assume "d \<in> set ds"
    with a have ok: "line_ok inp LN_Relative d" by simp
    show "dt_block d < length (pi_document inp)
           \<and> isVisible (pi_document inp ! dt_block d)
           \<and> (if int (dt_block d) = pi_curBlockNumber inp
               then dt_number d = int (dt_block d) + 1 \<and> dt_bold d
               else dt_number d = \<bar>int (dt_block d) - pi_curBlockNumber inp\<bar>
                    \<and> (\<not> pi_fontBold inp \<longrightarrow> \<not> dt_bold d))"
    proof (cases "int (dt_block d) = pi_curBlockNumber inp")
      case True
      with ok show ?thesis by (simp add: line_ok_def lineNumber_Relative)
    next
      case False
      with ok show ?thesis by (auto simp: line_ok_def lineNumber_Relative)
    qed
  qed
  with r b show ?thesis by blast
qed

theorem relative_numbers_witness:
  "m_lineNumberType (widget_in LN_Relative) = LN_Relative
   \<and> \<not> pi_fontBold (paint_all four_lines 0 2)
   \<and> paintLineNumberArea (paint_all four_lines 0 2) (widget_in LN_Relative)
       = Inr (widget_in LN_Relative,
          [\<lparr>dt_block = 0, dt_y = 2, dt_number = 2, dt_bold = False\<rparr>,
           \<lparr>dt_block = 1, dt_y = 12, dt_number = 1, dt_bold = False\<rparr>,
           \<lparr>dt_block = 2, dt_y = 22, dt_number = 3, dt_bold = True\<rparr>,
           \<lparr>dt_block = 3, dt_y = 32, dt_number = 1, dt_bold = False\<rparr>])"
proof -
  have mode: "m_lineNumberType (widget_in LN_Relative) = LN_Relative"
    by (simp add: widget_in_def)
  have nb: "\<not> pi_fontBold (paint_all four_lines 0 2)"
    by (simp add: paint_all_def)
  from relative_numbers [OF mode]
  obtain ds where "paintLineNumberArea (paint_all four_lines 0 2) (widget_in LN_Relative)
      = Inr (widget_in LN_Relative, ds)"
    by blast
  with mode nb eval_relative show ?thesis by simp
qed

subsection \<open>Gutter margin\<close>

text \<open>
  C8, as stated, fails: \<^verbatim>\<open>updateLineNumberArea\<close> sets the margin only when it changes
  the gutter's visibility. In mode \<^verbatim>\<open>None\<close> with a gutter that is already not visible, a
  margin of 24 stays 24; in mode \<^verbatim>\<open>CodeBlock\<close> with a gutter that is already visible, a
  margin of 0 stays 0 although the gutter's computed width is 24.
\<close>

theorem lineNumberArea_margin_counterexample:
  "m_lineNumberType stale_margin_widget = LN_None
   \<and> margins_left (viewportMargins (updateLineNumberArea stale_margin_widget)) = 24
   \<and> m_lineNumberType (widget_in LN_CodeBlock) = LN_CodeBlock
   \<and> area_calculateWidth (updateLineNumberArea (widget_in LN_CodeBlock)) = 24
   \<and> margins_left (viewportMargins (updateLineNumberArea (widget_in LN_CodeBlock))) = 0"
  by (simp add: stale_margin_widget_def widget_in_def base_widget_def updateLineNumberArea_def
      area_isVisible_def area_update_def margins_left_def)

text \<open>
  C8, amended. \<^verbatim>\<open>updateLineNumberAreaMargin\<close> leaves the left viewport margin at 0 when
  the line-number mode is \<^verbatim>\<open>None\<close> and at the gutter's computed width otherwise.
  \<^verbatim>\<open>updateLineNumberArea\<close> calls it only when it changes the gutter's visibility: in mode
  \<^verbatim>\<open>None\<close> a visible gutter is hidden and the margin becomes 0, while a gutter that is
  not visible is left as it is, margin included; in any other mode a gutter that is not
  visible is shown and the margin becomes the computed width, while a visible gutter
  keeps the margins it has. After \<^verbatim>\<open>updateLineNumberArea\<close> in mode \<^verbatim>\<open>None\<close> the gutter is
  not visible. A paint request in mode \<^verbatim>\<open>None\<close> draws nothing and leaves the gutter
  hidden with margin 0.
\<close>

theorem lineNumberArea_margin:
  "margins_left (viewportMargins (updateLineNumberAreaMargin s))
     = (if m_lineNumberType s = LN_None then 0 else area_calculateWidth s)
   \<and> (m_lineNumberType s = LN_None \<longrightarrow>
        \<not> area_isVisible (updateLineNumberArea s)
        \<and> (area_isVisible s \<longrightarrow> margins_left (viewportMargins (updateLineNumberArea s)) = 0)
        \<and> (\<not> area_isVisible s \<longrightarrow> updateLineNumberArea s = s))
   \<and> (m_lineNumberType s = LN_None \<longrightarrow>
        (\<exists>s'. paintLineNumberArea inp s = Inr (s', [])
              \<and> \<not> area_isVisible s' \<and> margins_left (viewportMargins s') = 0))
   \<and> (m_lineNumberType s \<noteq> LN_None \<and> \<not> area_isVisible s \<longrightarrow>
        \<not> area_hidden (updateLineNumberArea s)
        \<and> margins_left (viewportMargins (updateLineNumberArea s)) = area_calculateWidth s)
   \<and> (m_lineNumberType s \<noteq> LN_None \<and> area_isVisible s \<longrightarrow>
        viewportMargins (updateLineNumberArea s) = viewportMargins s
        \<and> area_isVisible (updateLineNumberArea s))"
proof -
  have m: "margins_left (viewportMargins (updateLineNumberAreaMargin s))
     = (if m_lineNumberType s = LN_None then 0 else area_calculateWidth s)"
    by (simp add: updateLineNumberAreaMargin_def margins_left_def Let_def)
  have a: "m_lineNumberType s = LN_None \<longrightarrow>
        \<not> area_isVisible (updateLineNumberArea s)
        \<and> (area_isVisible s \<longrightarrow> margins_left (viewportMargins (updateLineNumberArea s)) = 0)
        \<and> (\<not> area_isVisible s \<longrightarrow> updateLineNumberArea s = s)"
    using m by (simp add: updateLineNumberArea_def area_hide_def area_isVisible_def)
  have b: "m_lineNumberType s = LN_None \<longrightarrow>
        (\<exists>s'. paintLineNumberArea inp s = Inr (s', [])
              \<and> \<not> area_isVisible s' \<and> margins_left (viewportMargins s') = 0)"
    using m by (simp add: paintLineNumberArea_def area_hide_def area_isVisible_def)
  have c: "m_lineNumberType s \<noteq> LN_None \<and> \<not> area_isVisible s \<longrightarrow>
        \<not> area_hidden (updateLineNumberArea s)
        \<and> margins_left (viewportMargins (updateLineNumberArea s)) = area_calculateWidth s"
    using m by (simp add: updateLineNumberArea_def area_show_def area_update_def)
  have d: "m_lineNumberType s \<noteq> LN_None \<and> area_isVisible s \<longrightarrow>
        viewportMargins (updateLineNumberArea s) = viewportMargins s
        \<and> area_isVisible (updateLineNumberArea s)"
    by (simp add: updateLineNumberArea_def area_update_def area_isVisible_def)
  from m a b c d show ?thesis by blast
qed

theorem lineNumberArea_margin_witness:
  "m_lineNumberType (base_widget\<lparr>viewportMargins := (24, 0, 0, 0)\<rparr>) = LN_None
   \<and> area_isVisible (base_widget\<lparr>viewportMargins := (24, 0, 0, 0)\<rparr>)
   \<and> \<not> area_isVisible (updateLineNumberArea (base_widget\<lparr>viewportMargins := (24, 0, 0, 0)\<rparr>))
   \<and> margins_left (viewportMargins
        (updateLineNumberArea (base_widget\<lparr>viewportMargins := (24, 0, 0, 0)\<rparr>))) = 0
   \<and> m_lineNumberType ((widget_in LN_Absolute)\<lparr>area_hidden := True\<rparr>) \<noteq> LN_None
   \<and> \<not> area_isVisible ((widget_in LN_Absolute)\<lparr>area_hidden := True\<rparr>)
   \<and> margins_left (viewportMargins
        (updateLineNumberArea ((widget_in LN_Absolute)\<lparr>area_hidden := True\<rparr>))) = 24
   \<and> paintLineNumberArea (paint_all four_lines 0 0)
        (base_widget\<lparr>viewportMargins := (24, 0, 0, 0)\<rparr>)
       = Inr (base_widget\<lparr>viewportMargins := (0, 0, 0, 0), area_hidden := True\<rparr>, [])
   \<and> m_lineNumberType stale_margin_widget = LN_None
   \<and> \<not> area_isVisible stale_margin_widget
   \<and> updateLineNumberArea stale_margin_widget = stale_margin_widget
   \<and> m_lineNumberType (widget_in LN_Absolute) \<noteq> LN_None
   \<and> area_isVisible (widget_in LN_Absolute)
   \<and> viewportMargins (updateLineNumberArea (widget_in LN_Absolute)) = (0, 0, 0, 0)"
proof -
  let ?a = "base_widget\<lparr>viewportMargins := (24, 0, 0, 0)\<rparr>"
  let ?b = "(widget_in LN_Absolute)\<lparr>area_hidden := True\<rparr>"
  let ?c = "stale_margin_widget"
  let ?d = "widget_in LN_Absolute"
  let ?inp = "paint_all four_lines 0 0"
  have a: "m_lineNumberType ?a = LN_None" "area_isVisible ?a"
    by (simp_all add: base_widget_def area_isVisible_def)
  have b: "m_lineNumberType ?b \<noteq> LN_None" "\<not> area_isVisible ?b" "area_calculateWidth ?b = 24"
    by (simp_all add: widget_in_def base_widget_def area_isVisible_def)
  have c: "m_lineNumberType ?c = LN_None" "\<not> area_isVisible ?c"
    by (simp_all add: stale_margin_widget_def base_widget_def area_isVisible_def)
  have d: "m_lineNumberType ?d \<noteq> LN_None" "area_isVisible ?d"
    "viewportMargins ?d = (0, 0, 0, 0)"
    by (simp_all add: widget_in_def base_widget_def area_isVisible_def)
  have p: "paintLineNumberArea ?inp ?a
       = Inr (base_widget\<lparr>viewportMargins := (0, 0, 0, 0), area_hidden := True\<rparr>, [])"
    by (simp add: paintLineNumberArea_def updateLineNumberAreaMargin_def area_hide_def
        margins_left_def base_widget_def)
  from a lineNumberArea_margin [of ?a ?inp]
  have a': "\<not> area_isVisible (updateLineNumberArea ?a)"
    "margins_left (viewportMargins (updateLineNumberArea ?a)) = 0"
    by blast+
  from b lineNumberArea_margin [of ?b ?inp]
  have b': "margins_left (viewportMargins (updateLineNumberArea ?b)) = 24"
    by simp
  from c lineNumberArea_margin [of ?c ?inp]
  have c': "updateLineNumberArea ?c = ?c"
    by blast
  from d lineNumberArea_margin [of ?d ?inp]
  have d': "viewportMargins (updateLineNumberArea ?d) = (0, 0, 0, 0)"
    by simp
  from a b c d p a' b' c' d' show ?thesis by simp
qed

end
